theory Spec2Isabelle
  imports Complex_Main "HOL-Library.Sublist"
begin

section \<open>JavaScript strings and numbers\<close>

text \<open>
  A JavaScript string is a sequence of UTF-16 code units. It is modelled as a \<open>string\<close>
  whose characters are the code units below 256; \<open>length\<close> is the JavaScript
  \<open>.length\<close>. Among these code units the ECMAScript classes WhiteSpace and
  LineTerminator (what \<open>trim\<close>, \<open>trimEnd\<close> and the regular expression class
  \<open>\s\<close> remove or match) contain TAB, LF, VT, FF, CR, SPACE and NBSP.
\<close>

definition LF :: char where
  "LF = CHR 0x0A"

definition is_space :: "char \<Rightarrow> bool" where
  "is_space c = (c \<in> set [CHR 0x09, CHR 0x0A, CHR 0x0B, CHR 0x0C, CHR 0x0D, CHR 0x20, CHR 0xA0])"

text \<open>\<open>String.prototype.trimStart\<close>, \<open>trimEnd\<close> and \<open>trim\<close>.\<close>

definition trimStart :: "string \<Rightarrow> string" where
  "trimStart s = dropWhile is_space s"

definition trimEnd :: "string \<Rightarrow> string" where
  "trimEnd s = rev (dropWhile is_space (rev s))"

definition trim :: "string \<Rightarrow> string" where
  "trim s = trimEnd (trimStart s)"

text \<open>
  \<open>s.split('\n')\<close>: the pieces between line feeds; the empty string gives one empty
  piece. \<open>parts.join('\n')\<close> puts a line feed between consecutive pieces.
\<close>

fun split_nl :: "string \<Rightarrow> string list" where
  "split_nl [] = [[]]"
| "split_nl (c # cs) =
     (if c = LF then [] # split_nl cs
      else (case split_nl cs of
              [] \<Rightarrow> [[c]]
            | l # ls \<Rightarrow> (c # l) # ls))"

fun join_nl :: "string list \<Rightarrow> string" where
  "join_nl [] = []"
| "join_nl [l] = l"
| "join_nl (l # ls) = l @ LF # join_nl ls"

text \<open>\<open>s.includes(p)\<close>: \<open>p\<close> occurs in \<open>s\<close> as a contiguous piece.\<close>

fun str_includes :: "string \<Rightarrow> string \<Rightarrow> bool" where
  "str_includes [] p = (p = [])"
| "str_includes (c # cs) p = (prefix p (c # cs) \<or> str_includes cs p)"

text \<open>
  A JavaScript number that counts milliseconds or bytes is modelled as an \<open>int\<close>; the
  one number beside the integers that the judge can produce is \<open>-Infinity\<close>, which
  is \<open>Math.max()\<close> of no argument.
\<close>

datatype jsnum = NegInfinity | Num int

fun math_max :: "int list \<Rightarrow> jsnum" where
  "math_max [] = NegInfinity"
| "math_max (x # xs) =
     (case math_max xs of
        NegInfinity \<Rightarrow> Num x
      | Num m \<Rightarrow> Num (max x m))"

text \<open>\<open>x || 0\<close> on an optional number, \<open>x || ''\<close> on an optional string.\<close>

definition or_zero :: "int option \<Rightarrow> int" where
  "or_zero x = (case x of None \<Rightarrow> 0 | Some n \<Rightarrow> n)"

definition or_empty :: "string option \<Rightarrow> string" where
  "or_empty x = (case x of None \<Rightarrow> [] | Some s \<Rightarrow> s)"

section \<open>Shared types (packages/shared/src/types.ts)\<close>

datatype SupportedLanguage = JavaScript | Python | Cpp | Rust

datatype SubmissionStatus = Queued | Running | Judging | Completed | Failed | Cancelled

datatype VerdictStatus =
    Accepted
  | WrongAnswer
  | TimeLimitExceeded
  | MemoryLimitExceeded
  | RuntimeError
  | CompilationError
  | SecurityViolation
  | SystemError

datatype ExecutionStrategyType = Client | Server | Hybrid

datatype Complexity = Low | Medium | High

record ComparisonMode =
  trimWhitespace :: bool
  ignoreTrailingSpaces :: bool
  ignoreEmptyLines :: bool

record ExecutionResult =
  er_success :: bool
  er_output :: "string option"
  er_error :: "string option"
  er_verdict :: "VerdictStatus option"
  er_executionTime :: "int option"
  er_memoryUsed :: "int option"
  er_exitCode :: "int option"

record TestCase =
  tc_id :: string
  tc_input :: string
  tc_expectedOutput :: string
  tc_timeLimit :: int
  tc_memoryLimit :: int
  tc_isHidden :: bool

record TestCaseResult =
  tr_testCaseNumber :: nat
  tr_passed :: bool
  tr_verdict :: VerdictStatus
  tr_executionTime :: int
  tr_memoryUsed :: int
  tr_actualOutput :: "string option"
  tr_error :: "string option"

record Verdict =
  v_status :: VerdictStatus
  v_passedTests :: nat
  v_totalTests :: nat
  v_maxTime :: jsnum
  v_maxMemory :: jsnum
  v_failedTestCase :: "nat option"
  v_errorMessage :: "string option"

text \<open>
  What a JavaScript \<open>throw\<close> carries: an \<open>Error\<close> object with its message, or
  anything else. A promise that rejects is a throw at the \<open>await\<close>.
\<close>

datatype thrown = Error string | OtherValue

definition error_message :: "thrown \<Rightarrow> string" where
  "error_message e = (case e of Error m \<Rightarrow> m | OtherValue \<Rightarrow> ''Unknown error'')"

section \<open>The judge engine\<close>

text \<open>
  \<open>normalize\<close> and \<open>compareOutput\<close> of \<open>JudgeEngine\<close>. The three steps of
  \<open>normalize\<close> run in the order of the source, each under its flag.
\<close>

definition normalize :: "string \<Rightarrow> ComparisonMode \<Rightarrow> string" where
  "normalize output mode =
     (let n1 = (if trimWhitespace mode then trim output else output);
          n2 = (if ignoreTrailingSpaces mode
                then join_nl (map trimEnd (split_nl n1)) else n1);
          n3 = (if ignoreEmptyLines mode
                then join_nl (filter (\<lambda>line. length (trim line) > 0) (split_nl n2)) else n2)
      in n3)"

definition compareOutput :: "string \<Rightarrow> string \<Rightarrow> ComparisonMode \<Rightarrow> bool" where
  "compareOutput actual expected mode = (normalize actual mode = normalize expected mode)"

text \<open>The comparison mode that \<open>runTestCase\<close> passes.\<close>

definition judgeMode :: ComparisonMode where
  "judgeMode = \<lparr>trimWhitespace = True, ignoreTrailingSpaces = True, ignoreEmptyLines = False\<rparr>"

text \<open>
  The outcome of one call of \<open>executeFunction\<close>: the promise resolves with an
  \<open>ExecutionResult\<close> or rejects.
\<close>

datatype exec_outcome = Resolves ExecutionResult | Rejects thrown

text \<open>
  \<open>runTestCase\<close>: the whole body is inside \<open>try\<close>, and the \<open>catch\<close> returns a
  result, so the function always returns a \<open>TestCaseResult\<close>.
\<close>

definition runTestCase :: "TestCase \<Rightarrow> exec_outcome \<Rightarrow> nat \<Rightarrow> TestCaseResult" where
  "runTestCase testCase outcome testNumber =
     (case outcome of
        Rejects e \<Rightarrow>
          \<lparr>tr_testCaseNumber = testNumber, tr_passed = False, tr_verdict = RuntimeError,
           tr_executionTime = 0, tr_memoryUsed = 0, tr_actualOutput = None,
           tr_error = Some (error_message e)\<rparr>
      | Resolves result \<Rightarrow>
          if \<not> er_success result then
            \<lparr>tr_testCaseNumber = testNumber, tr_passed = False,
             tr_verdict = (case er_verdict result of None \<Rightarrow> RuntimeError | Some v \<Rightarrow> v),
             tr_executionTime = or_zero (er_executionTime result),
             tr_memoryUsed = or_zero (er_memoryUsed result),
             tr_actualOutput = None, tr_error = er_error result\<rparr>
          else if or_zero (er_executionTime result) \<noteq> 0
                  \<and> or_zero (er_executionTime result) > tc_timeLimit testCase then
            \<lparr>tr_testCaseNumber = testNumber, tr_passed = False, tr_verdict = TimeLimitExceeded,
             tr_executionTime = or_zero (er_executionTime result),
             tr_memoryUsed = or_zero (er_memoryUsed result),
             tr_actualOutput = None, tr_error = None\<rparr>
          else
            (let outputMatches =
                   compareOutput (or_empty (er_output result)) (tc_expectedOutput testCase) judgeMode
             in \<lparr>tr_testCaseNumber = testNumber, tr_passed = outputMatches,
                 tr_verdict = (if outputMatches then Accepted else WrongAnswer),
                 tr_executionTime = or_zero (er_executionTime result),
                 tr_memoryUsed = or_zero (er_memoryUsed result),
                 tr_actualOutput = er_output result, tr_error = None\<rparr>))"

text \<open>
  The loop of \<open>evaluate\<close>. \<open>executeFunction\<close> has effects, so its model takes the
  number of calls made before: call \<open>i\<close> (from 0) is the one for test case \<open>i\<close>, since
  every iteration calls it once. The loop appends each result and leaves at the first
  result that did not pass.
\<close>

fun evaluate_loop ::
  "TestCase list \<Rightarrow> (nat \<Rightarrow> string \<Rightarrow> exec_outcome) \<Rightarrow> nat \<Rightarrow> TestCaseResult list" where
  "evaluate_loop [] executeFunction i = []"
| "evaluate_loop (testCase # rest) executeFunction i =
     (let result = runTestCase testCase (executeFunction i (tc_input testCase)) (i + 1)
      in if \<not> tr_passed result then [result]
         else result # evaluate_loop rest executeFunction (i + 1))"

text \<open>
  \<open>generateVerdict\<close>. \<open>firstFailure!.verdict\<close> on an \<open>undefined\<close> \<open>firstFailure\<close>
  would throw a \<open>TypeError\<close>; that branch is kept as \<open>Inl\<close>.
\<close>

definition generateVerdict :: "TestCaseResult list \<Rightarrow> nat \<Rightarrow> thrown + Verdict" where
  "generateVerdict results totalTests =
     (if list_all tr_passed results then
        Inr \<lparr>v_status = Accepted, v_passedTests = length results, v_totalTests = totalTests,
             v_maxTime = math_max (map tr_executionTime results),
             v_maxMemory = math_max (map tr_memoryUsed results),
             v_failedTestCase = None, v_errorMessage = None\<rparr>
      else
        (case find (\<lambda>r. \<not> tr_passed r) results of
           None \<Rightarrow> Inl (Error ''Cannot read properties of undefined'')
         | Some firstFailure \<Rightarrow>
             Inr \<lparr>v_status = tr_verdict firstFailure,
                  v_passedTests = length (filter tr_passed results),
                  v_totalTests = totalTests,
                  v_maxTime = math_max (map tr_executionTime results),
                  v_maxMemory = math_max (map tr_memoryUsed results),
                  v_failedTestCase = Some (tr_testCaseNumber firstFailure),
                  v_errorMessage = tr_error firstFailure\<rparr>))"

definition evaluate ::
  "string \<Rightarrow> TestCase list \<Rightarrow> (nat \<Rightarrow> string \<Rightarrow> exec_outcome) \<Rightarrow> thrown + Verdict" where
  "evaluate code testCases executeFunction =
     generateVerdict (evaluate_loop testCases executeFunction 0) (length testCases)"

section \<open>The strategy router (strategy-router.ts)\<close>

text \<open>
  The estimates of memory and CPU are integers; the server load and the cost are
  fractions and are modelled as real numbers.
\<close>

record CodeAnalysis =
  ca_complexity :: Complexity
  ca_hasUnsafeOperations :: bool
  ca_estimatedMemory :: int
  ca_estimatedCPU :: int
  ca_requiresCompilation :: bool
  ca_canRunInBrowser :: bool

record SystemMetrics =
  sm_serverLoad :: real
  sm_queueDepth :: int
  sm_availableWorkers :: int
  sm_avgResponseTime :: int

record ExecutionStrategy =
  es_type :: ExecutionStrategyType
  es_reason :: string
  es_estimatedCost :: real
  es_estimatedLatency :: int

subsection \<open>The regular expressions of \<open>analyzeCode\<close>\<close>

text \<open>
  The four tests carry the flag \<open>i\<close> and no other. Without the flag \<open>u\<close>, two code
  units match under \<open>i\<close> when their canonical forms (the upper-case mapping, which never
  takes a code unit from 128 up to one below 128) are equal; every character of the four
  patterns is ASCII, so a pattern character matches exactly its own two ASCII cases.
  The class \<open>\w\<close> is \<open>[A-Za-z0-9_]\<close>, and \<open>.\<close> is any code unit but a line
  terminator (LF and CR among the code units below 256).
\<close>

definition is_word_char :: "char \<Rightarrow> bool" where
  "is_word_char c =
     (c \<in> set ''abcdefghijklmnopqrstuvwxyzABCDEFGHIJKLMNOPQRSTUVWXYZ0123456789_'')"

definition is_line_terminator :: "char \<Rightarrow> bool" where
  "is_line_terminator c = (c = CHR 0x0A \<or> c = CHR 0x0D)"

definition ascii_upper :: "char \<Rightarrow> char" where
  "ascii_upper c =
     (case map_of (zip ''abcdefghijklmnopqrstuvwxyz'' ''ABCDEFGHIJKLMNOPQRSTUVWXYZ'') c of
        None \<Rightarrow> c
      | Some u \<Rightarrow> u)"

text \<open>The literal \<open>p\<close> matches at the start of the string, under the flag \<open>i\<close>.\<close>

fun starts_with_ci :: "string \<Rightarrow> string \<Rightarrow> bool" where
  "starts_with_ci [] s = True"
| "starts_with_ci (p # ps) [] = False"
| "starts_with_ci (p # ps) (c # cs) = (ascii_upper p = ascii_upper c \<and> starts_with_ci ps cs)"

text \<open>\<open>/p/i.test(s)\<close> for a literal \<open>p\<close>: the literal matches at some position.\<close>

fun test_ci :: "string \<Rightarrow> string \<Rightarrow> bool" where
  "test_ci p [] = starts_with_ci p []"
| "test_ci p (c # cs) = (starts_with_ci p (c # cs) \<or> test_ci p cs)"

text \<open>\<open>.*p\<close> matches at the start of the string.\<close>

fun dot_star_then_ci :: "string \<Rightarrow> string \<Rightarrow> bool" where
  "dot_star_then_ci p [] = starts_with_ci p []"
| "dot_star_then_ci p (c # cs) =
     (starts_with_ci p (c # cs) \<or> (\<not> is_line_terminator c \<and> dot_star_then_ci p cs))"

text \<open>\<open>/import.*child_process/i.test(s)\<close>.\<close>

fun test_import_child_process :: "string \<Rightarrow> bool" where
  "test_import_child_process [] = False"
| "test_import_child_process (c # cs) =
     ((starts_with_ci ''import'' (c # cs) \<and> dot_star_then_ci ''child_process'' (drop 6 (c # cs)))
      \<or> test_import_child_process cs)"

text \<open>
  \<open>/fs\.|open\(|readFile|writeFile|fopen|fwrite/i\<close>,
  \<open>/fetch\(|XMLHttpRequest|WebSocket|socket|http\.|requests\./i\<close>,
  \<open>/exec\(|spawn\(|fork\(|subprocess|system\(/i\<close> and
  \<open>/require\(['"]child_process|import.*child_process/i\<close>: a test of an alternation
  succeeds when the test of one alternative does.
\<close>

definition fileIO_literals :: "string list" where
  "fileIO_literals = [''fs.'', ''open('', ''readFile'', ''writeFile'', ''fopen'', ''fwrite'']"

definition network_literals :: "string list" where
  "network_literals =
     [''fetch('', ''XMLHttpRequest'', ''WebSocket'', ''socket'', ''http.'', ''requests.'']"

definition processSpawn_literals :: "string list" where
  "processSpawn_literals = [''exec('', ''spawn('', ''fork('', ''subprocess'', ''system('']"

definition nativeImport_literals :: "string list" where
  "nativeImport_literals =
     [''require('' @ [CHR 0x27] @ ''child_process'', ''require('' @ [CHR 0x22] @ ''child_process'']"

definition hasFileIO :: "string \<Rightarrow> bool" where
  "hasFileIO code = list_ex (\<lambda>p. test_ci p code) fileIO_literals"

definition hasNetwork :: "string \<Rightarrow> bool" where
  "hasNetwork code = list_ex (\<lambda>p. test_ci p code) network_literals"

definition hasProcessSpawn :: "string \<Rightarrow> bool" where
  "hasProcessSpawn code = list_ex (\<lambda>p. test_ci p code) processSpawn_literals"

definition hasNativeImports :: "string \<Rightarrow> bool" where
  "hasNativeImports code =
     (list_ex (\<lambda>p. test_ci p code) nativeImport_literals \<or> test_import_child_process code)"

text \<open>
  \<open>code.match(/.../g)\<close> collects the matches from left to right: after a match the
  search goes on where the match ended, after a failure one code unit further.
  \<open>count_matches m skip prev s\<close> counts them for a pattern given by \<open>m\<close>, which
  takes the code unit before the position (for \<open>\b\<close>) and the rest of the string and
  returns the length of the match there; \<open>skip\<close> is the number of code units still
  inside the last match. Neither pattern matches the empty string.
\<close>

fun count_matches ::
  "(char option \<Rightarrow> string \<Rightarrow> nat option) \<Rightarrow> nat \<Rightarrow> char option \<Rightarrow> string \<Rightarrow> nat" where
  "count_matches m skip prev [] = 0"
| "count_matches m skip prev (c # cs) =
     (if skip > 0 then count_matches m (skip - 1) (Some c) cs
      else (case m prev (c # cs) of
              None \<Rightarrow> count_matches m 0 (Some c) cs
            | Some n \<Rightarrow> 1 + count_matches m (n - 1) (Some c) cs))"

definition next_char :: "string \<Rightarrow> char option" where
  "next_char s = (case s of [] \<Rightarrow> None | c # _ \<Rightarrow> Some c)"

text \<open>\<open>\b\<close>: exactly one of the two neighbours is a word character.\<close>

definition word_boundary :: "char option \<Rightarrow> char option \<Rightarrow> bool" where
  "word_boundary a b =
     ((case a of None \<Rightarrow> False | Some c \<Rightarrow> is_word_char c)
      \<noteq> (case b of None \<Rightarrow> False | Some c \<Rightarrow> is_word_char c))"

definition match_keyword :: "string \<Rightarrow> char option \<Rightarrow> string \<Rightarrow> bool" where
  "match_keyword kw prev s =
     (word_boundary prev (next_char s) \<and> prefix kw s
      \<and> word_boundary (Some (last kw)) (next_char (drop (length kw) s)))"

text \<open>\<open>/\b(for|while|do)\b/g\<close> at one position: the alternatives in their order.\<close>

definition match_loop :: "char option \<Rightarrow> string \<Rightarrow> nat option" where
  "match_loop prev s =
     (if match_keyword ''for'' prev s then Some 3
      else if match_keyword ''while'' prev s then Some 5
      else if match_keyword ''do'' prev s then Some 2
      else None)"

definition last_index :: "char \<Rightarrow> string \<Rightarrow> nat option" where
  "last_index x s =
     (if x \<in> set s then Some (length s - 1 - length (takeWhile (\<lambda>c. c \<noteq> x) (rev s)))
      else None)"

text \<open>
  \<open>/function\s+\w+\s*\([^)]*\)\s*{[^}]*\1/g\<close> at one position. The pattern has no
  capturing group, so without the flag \<open>u\<close> the escape \<open>\1\<close> is the legacy octal
  escape of the code unit 1. Each greedy quantifier is followed by something outside its
  class and therefore takes its longest run; \<open>[^}]*\<close> gives back down to the last code
  unit 1 of its run.
\<close>

definition match_recursion :: "char option \<Rightarrow> string \<Rightarrow> nat option" where
  "match_recursion prev s =
     (if \<not> prefix ''function'' s then None else
      let s1 = drop 8 s;
          s2 = dropWhile is_space s1;
          s3 = dropWhile is_word_char s2;
          s4 = dropWhile is_space s3
      in if s2 = s1 \<or> s3 = s2 \<or> next_char s4 \<noteq> Some CHR ''('' then None else
      let s5 = dropWhile (\<lambda>c. c \<noteq> CHR '')'') (tl s4)
      in if s5 = [] then None else
      let s6 = dropWhile is_space (tl s5)
      in if next_char s6 \<noteq> Some CHR ''{'' then None else
      let body = takeWhile (\<lambda>c. c \<noteq> CHR ''}'') (tl s6)
      in (case last_index (CHR 0x01) body of
            None \<Rightarrow> None
          | Some i \<Rightarrow> Some (length s - length (tl s6) + i + 1)))"

subsection \<open>\<open>analyzeCode\<close> and \<open>selectStrategy\<close>\<close>

text \<open>
  Both methods read their arguments only: the class has no field, and the regular
  expressions are literals without state. They are functions of their two arguments.
\<close>

definition analyzeCode :: "string \<Rightarrow> SupportedLanguage \<Rightarrow> CodeAnalysis" where
  "analyzeCode code language =
     (let hasUnsafeOperations =
            (hasFileIO code \<or> hasNetwork code \<or> hasProcessSpawn code \<or> hasNativeImports code);
          loopCount = int (count_matches match_loop 0 None code);
          recursionIndicators = int (count_matches match_recursion 0 None code);
          complexity =
            (if loopCount > 5 \<or> recursionIndicators > 2 then High
             else if loopCount > 2 then Medium
             else Low);
          estimatedMemory = int (length code) * 100 + loopCount * 1024 * 1024;
          estimatedCPU = loopCount * 100 + recursionIndicators * 200;
          requiresCompilation = (language = Cpp \<or> language = Rust);
          canRunInBrowser =
            ((language = JavaScript \<or> language = Python) \<and> \<not> hasUnsafeOperations)
      in \<lparr>ca_complexity = complexity, ca_hasUnsafeOperations = hasUnsafeOperations,
          ca_estimatedMemory = estimatedMemory, ca_estimatedCPU = estimatedCPU,
          ca_requiresCompilation = requiresCompilation, ca_canRunInBrowser = canRunInBrowser\<rparr>)"

definition selectStrategy :: "CodeAnalysis \<Rightarrow> SystemMetrics \<Rightarrow> ExecutionStrategy" where
  "selectStrategy analysis systemLoad =
     (if ca_canRunInBrowser analysis \<and> \<not> ca_hasUnsafeOperations analysis
         \<and> ca_complexity analysis = Low \<and> ca_estimatedMemory analysis < 100 * 1024 * 1024
      then \<lparr>es_type = Client, es_reason = ''Safe, simple code suitable for browser execution'',
            es_estimatedCost = 0, es_estimatedLatency = 100\<rparr>
      else if ca_canRunInBrowser analysis \<and> \<not> ca_hasUnsafeOperations analysis
              \<and> sm_serverLoad systemLoad > 0.8
      then \<lparr>es_type = Client, es_reason = ''Server overloaded, routing to client-side'',
            es_estimatedCost = 0, es_estimatedLatency = 200\<rparr>
      else if ca_hasUnsafeOperations analysis \<or> ca_complexity analysis = High
      then \<lparr>es_type = Server,
            es_reason = ''Complex or unsafe code requires server-side isolation'',
            es_estimatedCost = 0.001, es_estimatedLatency = 2000\<rparr>
      else if ca_complexity analysis = Medium
      then \<lparr>es_type = Hybrid, es_reason = ''Medium complexity, using pre-warmed containers'',
            es_estimatedCost = 0.0005, es_estimatedLatency = 1000\<rparr>
      else \<lparr>es_type = Server, es_reason = ''Default server-side execution'',
            es_estimatedCost = 0.001, es_estimatedLatency = 2000\<rparr>)"

section \<open>The container orchestrator\<close>

datatype ExecutionEnvironmentType = WorkerEnv | ContainerEnv | WasmEnv

datatype EnvironmentStatus = Idle | Busy | Terminated

record ExecutionEnvironment =
  env_id :: string
  env_type :: ExecutionEnvironmentType
  env_language :: SupportedLanguage
  env_status :: EnvironmentStatus
  env_createdAt :: int
  env_lastUsed :: int
  env_executionCount :: nat

record ResourceLimits =
  rl_timeLimit :: int
  rl_memoryLimit :: int
  rl_cpuQuota :: int
  rl_pidsLimit :: int

record SubmissionRequest =
  rq_code :: string
  rq_language :: SupportedLanguage
  rq_problemId :: string
  rq_userId :: string
  rq_isCustomTest :: bool
  rq_customInput :: "string option"

record Submission =
  sub_id :: string
  sub_userId :: string
  sub_problemId :: string
  sub_code :: string
  sub_language :: SupportedLanguage
  sub_status :: SubmissionStatus
  sub_verdict :: "Verdict option"
  sub_createdAt :: int
  sub_startedAt :: "int option"
  sub_completedAt :: "int option"
  sub_executionStrategy :: ExecutionStrategy
  sub_testResults :: "TestCaseResult list"

text \<open>
  The state of the backend that the controller's operations act on: the calls received
  by the submission repository (each with the fields of the submission as they are at the
  moment of the call), the content of the Redis list behind the queue, the
  orchestrator's \<open>workerPool\<close> map, and the calls received by Docker.
\<close>

datatype repo_call = RepoCreate Submission | RepoUpdate Submission

text \<open>
  \<open>docker.createContainer\<close> returns a handle to the container that Docker has made,
  under the identifier that Docker has given it; \<open>container.start()\<close> goes to that
  handle. \<open>docker.getContainer(id)\<close> makes a handle from a string of the caller's, and
  \<open>stop\<close> and \<open>remove\<close> on it go to whatever container that string names.
\<close>

datatype docker_call =
    CreateContainer SupportedLanguage string
  | StartContainer string
  | StopContainer string
  | RemoveContainer string

record world =
  repo_calls :: "repo_call list"
  queue :: "Submission list"
  workerPool :: "string \<rightharpoonup> ExecutionEnvironment"
  docker_calls :: "docker_call list"

text \<open>
  The database, Redis, Docker, the clock and the identifier generator are outside the
  program. Each operation takes their answers as a record: for a call that can throw, the
  thing thrown or \<open>None\<close>; for the clock and \<open>uuidv4\<close>, what they return.
\<close>

record create_answers =
  ce_uuid :: string
  ce_container :: string
  ce_createdAt :: int
  ce_lastUsed :: int
  ce_createContainer :: "thrown option"
  ce_start :: "thrown option"

record destroy_answers =
  de_stop :: "thrown option"
  de_remove :: "thrown option"

text \<open>
  What one run in the container does, as seen by \<open>executeInContainer\<close>: a Docker call
  before the output is collected (writing the files, creating or starting the exec)
  throws after some milliseconds, or the exec starts after \<open>setup\<close> milliseconds and its
  stream delivers chunks and then ends, fails, or does neither. Times are in
  milliseconds, the stream's from the moment \<open>collectOutput\<close> starts.
\<close>

datatype stream_fin = EndsAfter int | ErrorsAfter thrown int | NeverEnds

text \<open>
  When the event of the stream and the timer fall into the same millisecond, the order in
  which the two are handled is an answer of the run as well.
\<close>

datatype race = TimerFirst | StreamFirst

datatype container_run = ApiFailure thrown int | Stream int "string list" stream_fin race

text \<open>
  \<open>setTimeout(f, t)\<close> of Node.js: a delay below 1 or above \<open>2^31 - 1\<close> is replaced
  by 1.
\<close>

definition timer_delay :: "int \<Rightarrow> int" where
  "timer_delay timeout = (if 1 \<le> timeout \<and> timeout \<le> 2147483647 then timeout else 1)"

text \<open>
  The timer set to \<open>delay\<close> is handled before the event that the stream has after
  \<open>d\<close> milliseconds.
\<close>

definition timer_wins :: "int \<Rightarrow> int \<Rightarrow> race \<Rightarrow> bool" where
  "timer_wins delay d tie = (delay < d \<or> (delay = d \<and> tie = TimerFirst))"

text \<open>
  \<open>createExecutionEnvironment\<close>. The identifier of the environment is the fresh UUID;
  the UUID is not passed to Docker, and neither the handle of the created container nor
  its identifier (\<open>ce_container\<close>) is kept. The two time stamps are two readings of
  the clock.
\<close>

definition createExecutionEnvironment ::
  "create_answers \<Rightarrow> world \<Rightarrow> SupportedLanguage \<Rightarrow> (thrown + ExecutionEnvironment) \<times> world" where
  "createExecutionEnvironment a w language =
     (let containerId = ce_uuid a;
          w1 = w\<lparr>docker_calls := docker_calls w @ [CreateContainer language (ce_container a)]\<rparr>
      in case ce_createContainer a of
           Some e \<Rightarrow> (Inl e, w1)
         | None \<Rightarrow>
             (let w2 = w1\<lparr>docker_calls := docker_calls w1 @ [StartContainer (ce_container a)]\<rparr>
              in case ce_start a of
                   Some e \<Rightarrow> (Inl e, w2)
                 | None \<Rightarrow>
                     (let env = \<lparr>env_id = containerId, env_type = ContainerEnv,
                                 env_language = language, env_status = Idle,
                                 env_createdAt = ce_createdAt a, env_lastUsed = ce_lastUsed a,
                                 env_executionCount = 0\<rparr>
                      in (Inr env, w2\<lparr>workerPool := (workerPool w2)(containerId \<mapsto> env)\<rparr>))))"

text \<open>
  \<open>collectOutput\<close>: the timer rejects with \<open>Time Limit Exceeded\<close> unless the stream
  has ended or failed before; a chunk that contains \<open>stderr\<close> goes to \<open>stderr\<close>, any
  other to \<open>stdout\<close>. The second component is the time at which the promise settles.
  Nothing here stops the container.
\<close>


definition collect_chunks :: "string list \<Rightarrow> string \<times> string" where
  "collect_chunks chunks =
     foldl (\<lambda>(stdout, stderr) data.
              if str_includes data ''stderr'' then (stdout, stderr @ data)
              else (stdout @ data, stderr))
       ([], []) chunks"

definition collectOutput ::
  "string list \<Rightarrow> stream_fin \<Rightarrow> race \<Rightarrow> int \<Rightarrow> (thrown + string \<times> string) \<times> int" where
  "collectOutput chunks fin tie timeout =
     (let delay = timer_delay timeout
      in case fin of
           NeverEnds \<Rightarrow> (Inl (Error ''Time Limit Exceeded''), delay)
         | EndsAfter d \<Rightarrow>
             if timer_wins delay d tie then (Inl (Error ''Time Limit Exceeded''), delay)
             else (Inr (collect_chunks chunks), d)
         | ErrorsAfter e d \<Rightarrow>
             if timer_wins delay d tie then (Inl (Error ''Time Limit Exceeded''), delay)
             else (Inl e, d))"

text \<open>
  \<open>executeInContainer\<close>: everything after the reading of the clock is inside \<open>try\<close>,
  and the \<open>catch\<close> returns a result, whatever was thrown. \<open>executionTime\<close> is the
  time from that reading to the return. What the program in the container prints for
  the given code and input is the answer \<open>run\<close>; \<open>getExecutionCommand\<close> returns a
  command for each of the four languages.
\<close>

definition executeInContainer ::
  "ExecutionEnvironment \<Rightarrow> string \<Rightarrow> string \<Rightarrow> ResourceLimits \<Rightarrow> container_run \<Rightarrow> ExecutionResult" where
  "executeInContainer env code input limits run =
     (case run of
        ApiFailure e t \<Rightarrow>
          \<lparr>er_success = False, er_output = None, er_error = Some (error_message e),
           er_verdict = Some RuntimeError, er_executionTime = Some t,
           er_memoryUsed = None, er_exitCode = None\<rparr>
      | Stream setup chunks fin tie \<Rightarrow>
          (case collectOutput chunks fin tie (rl_timeLimit limits) of
             (Inr (stdout, stderr), t) \<Rightarrow>
               \<lparr>er_success = True, er_output = Some stdout, er_error = Some stderr,
                er_verdict = None, er_executionTime = Some (setup + t),
                er_memoryUsed = Some 0, er_exitCode = Some 0\<rparr>
           | (Inl e, t) \<Rightarrow>
               \<lparr>er_success = False, er_output = None, er_error = Some (error_message e),
                er_verdict = Some RuntimeError, er_executionTime = Some (setup + t),
                er_memoryUsed = None, er_exitCode = None\<rparr>))"

text \<open>
  \<open>destroyEnvironment\<close>: stop, remove, delete from the pool, all three in one
  \<open>try\<close>; a throw of \<open>stop\<close> or \<open>remove\<close> is caught and logged, and what follows
  it in the \<open>try\<close> is not run. The handle is \<open>docker.getContainer(env.id)\<close>: the
  calls name the UUID of the environment.
\<close>

definition destroyEnvironment :: "destroy_answers \<Rightarrow> world \<Rightarrow> ExecutionEnvironment \<Rightarrow> world" where
  "destroyEnvironment a w env =
     (let w1 = w\<lparr>docker_calls := docker_calls w @ [StopContainer (env_id env)]\<rparr>
      in case de_stop a of
           Some e \<Rightarrow> w1
         | None \<Rightarrow>
             (let w2 = w1\<lparr>docker_calls := docker_calls w1 @ [RemoveContainer (env_id env)]\<rparr>
              in case de_remove a of
                   Some e \<Rightarrow> w2
                 | None \<Rightarrow> w2\<lparr>workerPool := (workerPool w2)(env_id env := None)\<rparr>))"

section \<open>The execution controller and the submit route\<close>

record submit_answers =
  sa_uuid :: string
  sa_now :: int
  sa_getQueueDepth :: "thrown option"
  sa_create :: "thrown option"
  sa_rpush :: "thrown option"
  sa_llen :: "thrown option"

text \<open>\<open>SubmissionQueue.enqueue\<close>: \<open>rpush\<close>, then the depth.\<close>

definition enqueue :: "submit_answers \<Rightarrow> world \<Rightarrow> Submission \<Rightarrow> (thrown + nat) \<times> world" where
  "enqueue a w submission =
     (case sa_rpush a of
        Some e \<Rightarrow> (Inl e, w)
      | None \<Rightarrow>
          (let w1 = w\<lparr>queue := queue w @ [submission]\<rparr>
           in case sa_llen a of
                Some e \<Rightarrow> (Inl e, w1)
              | None \<Rightarrow> (Inr (length (queue w1)), w1)))"

text \<open>
  \<open>ExecutionController.submit\<close>. \<open>!request.code\<close> holds for the empty string.
\<close>

definition submit :: "submit_answers \<Rightarrow> world \<Rightarrow> SubmissionRequest \<Rightarrow> (thrown + string) \<times> world" where
  "submit a w request =
     (if rq_code request = [] \<or> length (trim (rq_code request)) = 0
      then (Inl (Error ''Code cannot be empty''), w)
      else
        (let submissionId = sa_uuid a;
             analysis = analyzeCode (rq_code request) (rq_language request)
         in case sa_getQueueDepth a of
              Some e \<Rightarrow> (Inl e, w)
            | None \<Rightarrow>
                (let systemMetrics =
                       \<lparr>sm_serverLoad = 0.5, sm_queueDepth = int (length (queue w)),
                        sm_availableWorkers = 10, sm_avgResponseTime = 1000\<rparr>;
                     strategy = selectStrategy analysis systemMetrics;
                     submission =
                       \<lparr>sub_id = submissionId, sub_userId = rq_userId request,
                        sub_problemId = rq_problemId request, sub_code = rq_code request,
                        sub_language = rq_language request, sub_status = Queued,
                        sub_verdict = None, sub_createdAt = sa_now a,
                        sub_startedAt = None, sub_completedAt = None,
                        sub_executionStrategy = strategy, sub_testResults = []\<rparr>;
                     w1 = w\<lparr>repo_calls := repo_calls w @ [RepoCreate submission]\<rparr>
                 in case sa_create a of
                      Some e \<Rightarrow> (Inl e, w1)
                    | None \<Rightarrow>
                        (case enqueue a w1 submission of
                           (Inl e, w2) \<Rightarrow> (Inl e, w2)
                         | (Inr depth, w2) \<Rightarrow> (Inr submissionId, w2)))))"

text \<open>The handler of \<open>POST /api/submit\<close> in \<open>ApiServer.setupRoutes\<close>.\<close>

datatype http_response = Json200 string | Status400 string | Status500 string

definition post_api_submit ::
  "submit_answers \<Rightarrow> world \<Rightarrow> SubmissionRequest \<Rightarrow> http_response \<times> world" where
  "post_api_submit a w request =
     (if rq_code request = [] \<or> length (trim (rq_code request)) = 0
      then (Status400 ''Code cannot be empty'', w)
      else (case submit a w request of
              (Inr submissionId, w1) \<Rightarrow> (Json200 submissionId, w1)
            | (Inl e, w1) \<Rightarrow> (Status500 ''Internal server error'', w1)))"

text \<open>
  The limits that \<open>runCustomTest\<close> passes to \<open>executeInContainer\<close>, and the ones
  that the \<open>executeFunction\<close> of \<open>processSubmission\<close> passes: two literals in the
  source.
\<close>

definition customTestLimits :: ResourceLimits where
  "customTestLimits =
     \<lparr>rl_timeLimit = 5000, rl_memoryLimit = 512 * 1024 * 1024, rl_cpuQuota = 50000,
      rl_pidsLimit = 50\<rparr>"

definition submissionLimits :: ResourceLimits where
  "submissionLimits =
     \<lparr>rl_timeLimit = 5000, rl_memoryLimit = 512 * 1024 * 1024, rl_cpuQuota = 50000,
      rl_pidsLimit = 50\<rparr>"

record custom_test_answers =
  ct_create :: create_answers
  ct_run :: container_run
  ct_destroy :: destroy_answers

text \<open>
  \<open>runCustomTest\<close>: the environment is created before the \<open>try\<close>; the \<open>finally\<close>
  destroys it after \<open>executeInContainer\<close> has returned.
\<close>

definition runCustomTest ::
  "custom_test_answers \<Rightarrow> world \<Rightarrow> string \<Rightarrow> string \<Rightarrow> SupportedLanguage
     \<Rightarrow> (thrown + ExecutionResult) \<times> world" where
  "runCustomTest a w code input language =
     (case createExecutionEnvironment (ct_create a) w language of
        (Inl e, w1) \<Rightarrow> (Inl e, w1)
      | (Inr env, w1) \<Rightarrow>
          (let result = executeInContainer env code input customTestLimits (ct_run a)
           in (Inr result, destroyEnvironment (ct_destroy a) w1 env)))"

record process_answers =
  pa_startedAt :: int
  pa_completedAt :: int
  pa_failedAt :: int
  pa_update_running :: "thrown option"
  pa_create :: create_answers
  pa_runs :: "nat \<Rightarrow> container_run"
  pa_update_completed :: "thrown option"
  pa_update_failed :: "thrown option"
  pa_destroy :: destroy_answers

text \<open>The test cases of \<open>processSubmission\<close>, a literal in the source.\<close>

definition processTestCases :: "TestCase list" where
  "processTestCases =
     [\<lparr>tc_id = ''1'', tc_input = ''5'', tc_expectedOutput = ''120'', tc_timeLimit = 1000,
       tc_memoryLimit = 256 * 1024 * 1024, tc_isHidden = False\<rparr>]"

text \<open>The \<open>executeFunction\<close> that \<open>processSubmission\<close> hands to the judge.\<close>

definition submissionExecute ::
  "(nat \<Rightarrow> container_run) \<Rightarrow> ExecutionEnvironment \<Rightarrow> string \<Rightarrow> nat \<Rightarrow> string \<Rightarrow> exec_outcome" where
  "submissionExecute runs env code i input =
     Resolves (executeInContainer env code input submissionLimits (runs i))"

text \<open>
  The body of the \<open>try\<close> of \<open>processSubmission\<close>: what it throws if it throws, the
  submission object and the state as they are then.
\<close>

definition process_try ::
  "process_answers \<Rightarrow> world \<Rightarrow> Submission \<Rightarrow> ExecutionEnvironment
     \<Rightarrow> thrown option \<times> Submission \<times> world" where
  "process_try a w submission env =
     (case evaluate (sub_code submission) processTestCases
             (submissionExecute (pa_runs a) env (sub_code submission)) of
        Inl e \<Rightarrow> (Some e, submission, w)
      | Inr verdict \<Rightarrow>
          (let s1 = submission\<lparr>sub_verdict := Some verdict, sub_status := Completed,
                               sub_completedAt := Some (pa_completedAt a)\<rparr>;
               w1 = w\<lparr>repo_calls := repo_calls w @ [RepoUpdate s1]\<rparr>
           in case pa_update_completed a of
                Some e \<Rightarrow> (Some e, s1, w1)
              | None \<Rightarrow> (None, s1, w1)))"

text \<open>
  The \<open>catch\<close>: it marks the submission failed, updates the repository and throws the
  caught error again (or what the update throws).
\<close>

definition process_catch ::
  "process_answers \<Rightarrow> world \<Rightarrow> Submission \<Rightarrow> thrown \<Rightarrow> thrown option \<times> Submission \<times> world" where
  "process_catch a w submission error =
     (let s1 = submission\<lparr>sub_status := Failed, sub_completedAt := Some (pa_failedAt a)\<rparr>;
          w1 = w\<lparr>repo_calls := repo_calls w @ [RepoUpdate s1]\<rparr>
      in case pa_update_failed a of
           Some e \<Rightarrow> (Some e, s1, w1)
         | None \<Rightarrow> (Some error, s1, w1))"

text \<open>
  \<open>processSubmission\<close>: the result is what it throws (\<open>None\<close> when it returns), the
  submission object as the call leaves it, and the state. The first update and the
  creation of the environment are before the \<open>try\<close>; the \<open>finally\<close> runs after the
  \<open>try\<close> and after the \<open>catch\<close>.
\<close>

definition processSubmission ::
  "process_answers \<Rightarrow> world \<Rightarrow> Submission \<Rightarrow> thrown option \<times> Submission \<times> world" where
  "processSubmission a w submission =
     (let s1 = submission\<lparr>sub_status := Running, sub_startedAt := Some (pa_startedAt a)\<rparr>;
          w1 = w\<lparr>repo_calls := repo_calls w @ [RepoUpdate s1]\<rparr>
      in case pa_update_running a of
           Some e \<Rightarrow> (Some e, s1, w1)
         | None \<Rightarrow>
             (case createExecutionEnvironment (pa_create a) w1 (sub_language s1) of
                (Inl e, w2) \<Rightarrow> (Some e, s1, w2)
              | (Inr env, w2) \<Rightarrow>
                  (let (thrown, s2, w3) =
                         (case process_try a w2 s1 env of
                            (None, s, w') \<Rightarrow> (None, s, w')
                          | (Some error, s, w') \<Rightarrow> process_catch a w' s error)
                   in (thrown, s2, destroyEnvironment (pa_destroy a) w3 env))))"

section \<open>The stated properties\<close>

text \<open>
  The normalization as the specification words it, to be compared with \<open>normalize\<close>:
  leading and trailing whitespace is trimmed, then the trailing spaces of every line are
  stripped.
\<close>

definition strip_trailing_spaces :: "string \<Rightarrow> string" where
  "strip_trailing_spaces line = rev (dropWhile (\<lambda>c. c = CHR 0x20) (rev line))"

definition spec_normalize :: "string \<Rightarrow> string" where
  "spec_normalize s = join_nl (map strip_trailing_spaces (split_nl (trim s)))"

text \<open>
  The result of test case \<open>j\<close> (from 0) when \<open>evaluate\<close> runs it: the call number of
  \<open>executeFunction\<close> is \<open>j\<close> and the test number is \<open>j + 1\<close>.
\<close>

definition case_result ::
  "TestCase list \<Rightarrow> (nat \<Rightarrow> string \<Rightarrow> exec_outcome) \<Rightarrow> nat \<Rightarrow> TestCaseResult" where
  "case_result testCases executeFunction j =
     runTestCase (testCases ! j) (executeFunction j (tc_input (testCases ! j))) (j + 1)"

text \<open>
  Three test cases and a run that echoes its input: the first and the third case pass,
  the second fails.
\<close>

definition threeCases :: "TestCase list" where
  "threeCases =
     [\<lparr>tc_id = ''1'', tc_input = ''a'', tc_expectedOutput = ''a'', tc_timeLimit = 1000,
       tc_memoryLimit = 1024, tc_isHidden = False\<rparr>,
      \<lparr>tc_id = ''2'', tc_input = ''b'', tc_expectedOutput = ''x'', tc_timeLimit = 1000,
       tc_memoryLimit = 1024, tc_isHidden = False\<rparr>,
      \<lparr>tc_id = ''3'', tc_input = ''c'', tc_expectedOutput = ''c'', tc_timeLimit = 1000,
       tc_memoryLimit = 1024, tc_isHidden = False\<rparr>]"

definition echoRun :: "nat \<Rightarrow> string \<Rightarrow> exec_outcome" where
  "echoRun i inp =
     Resolves \<lparr>er_success = True, er_output = Some inp, er_error = None, er_verdict = None,
               er_executionTime = Some (int i + 5), er_memoryUsed = Some 0,
               er_exitCode = Some 0\<rparr>"

text \<open>
  The five rules of the selection policy, in their priority order, as the specification
  lists them.
\<close>

definition spec_strategy :: "CodeAnalysis \<Rightarrow> SystemMetrics \<Rightarrow> ExecutionStrategyType" where
  "spec_strategy analysis systemLoad =
     (if ca_canRunInBrowser analysis \<and> \<not> ca_hasUnsafeOperations analysis
         \<and> ca_complexity analysis = Low \<and> ca_estimatedMemory analysis < 100 * 2 ^ 20
      then Client
      else if ca_canRunInBrowser analysis \<and> \<not> ca_hasUnsafeOperations analysis
              \<and> sm_serverLoad systemLoad > 0.8
      then Client
      else if ca_hasUnsafeOperations analysis \<or> ca_complexity analysis = High then Server
      else if ca_complexity analysis = Medium then Hybrid
      else Server)"

text \<open>
  The literal \<open>p\<close> occurs in \<open>s\<close>, the ASCII letters compared without regard to
  case; and: \<open>import\<close> occurs in \<open>s\<close> and \<open>child_process\<close> after it with no line
  terminator between the two.
\<close>

definition occurs_ci :: "string \<Rightarrow> string \<Rightarrow> bool" where
  "occurs_ci p s =
     (\<exists>pre w post. s = pre @ w @ post \<and> map ascii_upper w = map ascii_upper p)"

definition import_before_child_process :: "string \<Rightarrow> bool" where
  "import_before_child_process s =
     (\<exists>pre a mid b post.
        s = pre @ a @ mid @ b @ post
        \<and> map ascii_upper a = map ascii_upper ''import''
        \<and> map ascii_upper b = map ascii_upper ''child_process''
        \<and> (\<forall>c \<in> set mid. \<not> is_line_terminator c))"

text \<open>The literal alternatives of the four unsafe-operation patterns.\<close>

definition unsafe_literals :: "string list" where
  "unsafe_literals =
     [''fs.'', ''open('', ''readFile'', ''writeFile'', ''fopen'', ''fwrite'',
      ''fetch('', ''XMLHttpRequest'', ''WebSocket'', ''socket'', ''http.'', ''requests.'',
      ''exec('', ''spawn('', ''fork('', ''subprocess'', ''system('',
      ''require('' @ [CHR 0x27] @ ''child_process'',
      ''require('' @ [CHR 0x22] @ ''child_process'']"

text \<open>
  The invariant of the data model: a submission has a verdict exactly when its status is
  \<open>Completed\<close> or \<open>Failed\<close>.
\<close>

definition verdict_consistent :: "Submission \<Rightarrow> bool" where
  "verdict_consistent s =
     ((sub_verdict s \<noteq> None) = (sub_status s = Completed \<or> sub_status s = Failed))"

text \<open>
  What an operation has handed to the repository, and what it has put on the queue,
  between the state \<open>w\<close> before and the state \<open>w'\<close> after.
\<close>

definition call_submission :: "repo_call \<Rightarrow> Submission" where
  "call_submission c = (case c of RepoCreate s \<Rightarrow> s | RepoUpdate s \<Rightarrow> s)"

definition persisted_since :: "world \<Rightarrow> world \<Rightarrow> Submission list" where
  "persisted_since w w' = map call_submission (drop (length (repo_calls w)) (repo_calls w'))"

definition enqueued_since :: "world \<Rightarrow> world \<Rightarrow> Submission list" where
  "enqueued_since w w' = drop (length (queue w)) (queue w')"

text \<open>
  Concrete states, answers and requests: an empty backend; Docker, the database and
  Redis answering without failure, Docker naming its new container \<open>4c01db0b339c\<close>; a
  \<open>stop\<close> that Docker refuses because \<open>env-1\<close> names no container; a run whose stream
  ends 6000 ms after it was started, under the limit of 5000 ms; the environment that
  \<open>createExecutionEnvironment\<close> builds from \<open>createOk\<close> for Python; a request whose
  code is blank; a request with a one-line program, the state after its \<open>submit\<close> and
  the submission then on the queue; and a database that fails at the update which
  records \<open>Completed\<close>.
\<close>

definition emptyWorld :: world where
  "emptyWorld = \<lparr>repo_calls = [], queue = [], workerPool = Map.empty, docker_calls = []\<rparr>"

definition createOk :: create_answers where
  "createOk =
     \<lparr>ce_uuid = ''env-1'', ce_container = ''4c01db0b339c'', ce_createdAt = 1000, ce_lastUsed = 1000, ce_createContainer = None,
      ce_start = None\<rparr>"

definition destroyOk :: destroy_answers where
  "destroyOk = \<lparr>de_stop = None, de_remove = None\<rparr>"

definition stopFails :: destroy_answers where
  "stopFails = \<lparr>de_stop = Some (Error ''no such container: env-1''), de_remove = None\<rparr>"

definition slowRun :: container_run where
  "slowRun = Stream 20 [''120''] (EndsAfter 6000) StreamFirst"

definition env1 :: ExecutionEnvironment where
  "env1 = \<lparr>env_id = ''env-1'', env_type = ContainerEnv, env_language = Python,
           env_status = Idle, env_createdAt = 1000, env_lastUsed = 1000,
           env_executionCount = 0\<rparr>"

definition blankRequest :: SubmissionRequest where
  "blankRequest =
     \<lparr>rq_code = [CHR 0x20, CHR 0x0A, CHR 0x09, CHR 0x20], rq_language = Python,
      rq_problemId = ''demo-problem'', rq_userId = ''demo-user'', rq_isCustomTest = False,
      rq_customInput = None\<rparr>"

definition submitOk :: submit_answers where
  "submitOk = \<lparr>sa_uuid = ''sub-1'', sa_now = 900, sa_getQueueDepth = None, sa_create = None,
                sa_rpush = None, sa_llen = None\<rparr>"

definition customTestStopFails :: custom_test_answers where
  "customTestStopFails = \<lparr>ct_create = createOk, ct_run = Stream 20 [''10''] (EndsAfter 30) StreamFirst,
                           ct_destroy = stopFails\<rparr>"

definition demoRequest :: SubmissionRequest where
  "demoRequest =
     \<lparr>rq_code = ''print(int(input())*2)'', rq_language = Python,
      rq_problemId = ''demo-problem'', rq_userId = ''demo-user'', rq_isCustomTest = False,
      rq_customInput = None\<rparr>"

definition queuedWorld :: world where
  "queuedWorld = snd (submit submitOk emptyWorld demoRequest)"

definition queuedSubmission :: Submission where
  "queuedSubmission = hd (queue queuedWorld)"

definition updateFails :: process_answers where
  "updateFails =
     \<lparr>pa_startedAt = 1000, pa_completedAt = 1100, pa_failedAt = 1101,
      pa_update_running = None, pa_create = createOk,
      pa_runs = (\<lambda>i. Stream 20 [''10''] (EndsAfter 30) StreamFirst),
      pa_update_completed = Some (Error ''connection terminated''),
      pa_update_failed = None, pa_destroy = destroyOk\<rparr>"

text \<open>
  A backend that answers every call of \<open>processSubmission\<close>, the submission and the
  state that it leaves when it processes the queued submission, and a backend where
  Docker fails to create the container.
\<close>

definition okAnswers :: process_answers where
  "okAnswers =
     \<lparr>pa_startedAt = 1000, pa_completedAt = 1100, pa_failedAt = 1101,
      pa_update_running = None, pa_create = createOk,
      pa_runs = (\<lambda>i. Stream 20 [''10''] (EndsAfter 30) StreamFirst),
      pa_update_completed = None, pa_update_failed = None, pa_destroy = destroyOk\<rparr>"

definition completedSubmission :: Submission where
  "completedSubmission = fst (snd (processSubmission okAnswers queuedWorld queuedSubmission))"

definition completedWorld :: world where
  "completedWorld = snd (snd (processSubmission okAnswers queuedWorld queuedSubmission))"

definition createFails :: process_answers where
  "createFails =
     \<lparr>pa_startedAt = 2000, pa_completedAt = 2100, pa_failedAt = 2101,
      pa_update_running = None,
      pa_create = createOk\<lparr>ce_createContainer := Some (Error ''no space left on device'')\<rparr>,
      pa_runs = (\<lambda>i. Stream 20 [''10''] (EndsAfter 30) StreamFirst),
      pa_update_completed = None, pa_update_failed = None, pa_destroy = destroyOk\<rparr>"

definition slowAnswers :: process_answers where
  "slowAnswers =
     \<lparr>pa_startedAt = 1000, pa_completedAt = 6100, pa_failedAt = 6101,
      pa_update_running = None, pa_create = createOk, pa_runs = (\<lambda>i. slowRun),
      pa_update_completed = None, pa_update_failed = None, pa_destroy = destroyOk\<rparr>"

section \<open>Output comparison\<close>

text \<open>
  Splitting at line feeds and joining with line feeds are inverse on lines that hold no
  line feed; \<open>trimEnd\<close> removes at least what stripping the spaces removes. So the
  normalization of the code is a function of the normalization of the specification.
\<close>

lemma split_nl_not_Nil: "split_nl s \<noteq> []"
  by (induction s) (auto split: list.splits)

lemma split_nl_no_LF: "l \<in> set (split_nl s) \<Longrightarrow> LF \<notin> set l"
  by (induction s arbitrary: l) (auto split: list.splits if_splits)

lemma split_nl_line: "LF \<notin> set l \<Longrightarrow> split_nl l = [l]"
  by (induction l) auto

lemma split_nl_append: "LF \<notin> set l \<Longrightarrow> split_nl (l @ LF # r) = l # split_nl r"
  by (induction l) auto

lemma split_join_nl:
  "ls \<noteq> [] \<Longrightarrow> \<forall>l \<in> set ls. LF \<notin> set l \<Longrightarrow> split_nl (join_nl ls) = ls"
  by (induction ls rule: join_nl.induct) (auto simp: split_nl_line split_nl_append)

lemma dropWhile_weaker:
  "(\<And>x. P x \<Longrightarrow> Q x) \<Longrightarrow> dropWhile Q (dropWhile P xs) = dropWhile Q xs"
  by (induction xs) auto

lemma trimEnd_strip: "trimEnd (strip_trailing_spaces l) = trimEnd l"
  by (simp add: trimEnd_def strip_trailing_spaces_def dropWhile_weaker is_space_def)

lemma strip_no_LF: "LF \<notin> set l \<Longrightarrow> LF \<notin> set (strip_trailing_spaces l)"
  using set_dropWhileD[of LF "\<lambda>c. c = CHR 0x20" "rev l"]
  by (auto simp: strip_trailing_spaces_def)

lemma lines_of_spec_normalize:
  "map trimEnd (split_nl (spec_normalize s)) = map trimEnd (split_nl (trim s))"
proof -
  let ?ls = "map strip_trailing_spaces (split_nl (trim s))"
  have "?ls \<noteq> []" by (simp add: split_nl_not_Nil)
  moreover have "\<forall>l \<in> set ?ls. LF \<notin> set l"
    using split_nl_no_LF strip_no_LF by fastforce
  ultimately have "split_nl (join_nl ?ls) = ?ls" by (rule split_join_nl)
  then show ?thesis by (simp add: spec_normalize_def trimEnd_strip comp_def)
qed

lemma normalize_via_spec:
  "trimWhitespace m \<Longrightarrow> ignoreTrailingSpaces m \<Longrightarrow>
   normalize s m = normalize (spec_normalize s) (m\<lparr>trimWhitespace := False\<rparr>)"
  by (simp add: normalize_def Let_def lines_of_spec_normalize)

lemma compareOutput_trailing_newline: "compareOutput (''5'' @ [LF]) ''5'' judgeMode"
  by (simp add: compareOutput_def normalize_def judgeMode_def trim_def trimStart_def trimEnd_def is_space_def LF_def)
lemma compareOutput_trailing_space: "compareOutput (''5 '' @ [LF] @ ''6'') (''5'' @ [LF] @ ''6'') judgeMode"
  by (simp add: compareOutput_def normalize_def judgeMode_def trim_def trimStart_def trimEnd_def is_space_def LF_def)
lemma compareOutput_two_trailing_newlines: "compareOutput (''5'' @ [LF, LF]) ''5'' judgeMode"
  by (simp add: compareOutput_def normalize_def judgeMode_def trim_def trimStart_def trimEnd_def is_space_def LF_def)
lemma compareOutput_inner_empty_line: "\<not> compareOutput (''5'' @ [LF, LF] @ ''6'') (''5'' @ [LF] @ ''6'') judgeMode"
  by (simp add: compareOutput_def normalize_def judgeMode_def trim_def trimStart_def trimEnd_def is_space_def LF_def)


section \<open>The evaluation loop and the verdict\<close>

lemma math_max_Max: "xs \<noteq> [] \<Longrightarrow> math_max xs = Num (Max (set xs))"
proof (induction xs)
  case Nil then show ?case by simp
next
  case (Cons x xs)
  show ?case
  proof (cases "xs = []")
    case True then show ?thesis by simp
  next
    case False
    with Cons show ?thesis by (simp add: max_def)
  qed
qed

lemma evaluate_loop_stops:
  "0 < k \<Longrightarrow> k \<le> length tcs \<Longrightarrow>
   (\<forall>j < k - 1. tr_passed (runTestCase (tcs ! j) (ex (i + j) (tc_input (tcs ! j))) (i + j + 1))) \<Longrightarrow>
   \<not> tr_passed (runTestCase (tcs ! (k - 1)) (ex (i + (k - 1)) (tc_input (tcs ! (k - 1)))) (i + (k - 1) + 1)) \<Longrightarrow>
   evaluate_loop tcs ex i =
     map (\<lambda>j. runTestCase (tcs ! j) (ex (i + j) (tc_input (tcs ! j))) (i + j + 1)) [0..<k]"
proof (induction tcs arbitrary: i k)
  case Nil then show ?case by simp
next
  case (Cons tc tcs)
  show ?case
  proof (cases "k = 1")
    case True
    with Cons.prems show ?thesis by (simp add: Let_def)
  next
    case False
    with Cons.prems obtain k' where k': "k = Suc k'" "0 < k'" by (cases k) auto
    have p0: "tr_passed (runTestCase tc (ex i (tc_input tc)) (i + 1))"
      using Cons.prems(3)[rule_format, of 0] k' by simp
    have ih: "evaluate_loop tcs ex (i + 1) =
      map (\<lambda>j. runTestCase (tcs ! j) (ex (i + 1 + j) (tc_input (tcs ! j))) (i + 1 + j + 1)) [0..<k']"
    proof (rule Cons.IH)
      show "0 < k'" by (rule k')
      show "k' \<le> length tcs" using Cons.prems(2) k' by simp
      show "\<forall>j<k' - 1. tr_passed (runTestCase (tcs ! j) (ex (i + 1 + j) (tc_input (tcs ! j))) (i + 1 + j + 1))"
      proof (intro allI impI)
        fix j assume "j < k' - 1"
        then have "Suc j < k - 1" using k' by simp
        from Cons.prems(3)[rule_format, OF this] show "tr_passed (runTestCase (tcs ! j) (ex (i + 1 + j) (tc_input (tcs ! j))) (i + 1 + j + 1))"
          by simp
      qed
      show "\<not> tr_passed (runTestCase (tcs ! (k' - 1)) (ex (i + 1 + (k' - 1)) (tc_input (tcs ! (k' - 1)))) (i + 1 + (k' - 1) + 1))"
        using Cons.prems(4) k' by (cases k') simp_all
    qed
    have "[0..<k] = 0 # map Suc [0..<k']" using k' by (simp add: upt_conv_Cons map_Suc_upt del: upt_Suc)
    then show ?thesis using p0 ih by (simp add: Let_def comp_def)
  qed
qed

lemma runTestCase_number: "tr_testCaseNumber (runTestCase tc out n) = n"
  by (simp add: runTestCase_def Let_def split: exec_outcome.splits)

lemma find_first_failure:
  "list_all P xs \<Longrightarrow> \<not> P y \<Longrightarrow> find (\<lambda>r. \<not> P r) (xs @ [y]) = Some y"
  by (induction xs) auto

lemma generateVerdict_never_throws: "\<exists>v. generateVerdict results n = Inr v"
proof (cases "list_all tr_passed results")
  case True then show ?thesis by (simp add: generateVerdict_def)
next
  case False
  then have "find (\<lambda>r. \<not> tr_passed r) results \<noteq> None"
    by (auto simp: find_None_iff list_all_iff)
  with False show ?thesis by (auto simp: generateVerdict_def)
qed

lemma evaluate_never_throws: "\<exists>v. evaluate code tcs ex = Inr v"
  by (simp add: evaluate_def generateVerdict_never_throws)



text \<open>
  C4. When the test cases before the \<open>k\<close>-th pass and the \<open>k\<close>-th fails, \<open>evaluate\<close>
  runs exactly the first \<open>k\<close> cases: the result list is the list of their \<open>k\<close> results,
  and the verdict has \<open>failedTestCase = k\<close>, the verdict kind of the \<open>k\<close>-th result as
  status, \<open>passedTests = k - 1\<close>, \<open>totalTests\<close> the number of test cases, and as
  \<open>maxTime\<close> and \<open>maxMemory\<close> the maxima over the \<open>k\<close> results.
\<close>

theorem evaluate_stops_at_first_failure:
  assumes k: "0 < k" "k \<le> length testCases"
    and pass: "\<forall>j < k - 1. tr_passed (case_result testCases executeFunction j)"
    and fail: "\<not> tr_passed (case_result testCases executeFunction (k - 1))"
  shows "evaluate_loop testCases executeFunction 0 = map (case_result testCases executeFunction) [0..<k]
     \<and> length (evaluate_loop testCases executeFunction 0) = k
     \<and> (\<exists>v. evaluate code testCases executeFunction = Inr v
          \<and> v_failedTestCase v = Some k
          \<and> v_status v = tr_verdict (case_result testCases executeFunction (k - 1))
          \<and> v_passedTests v = k - 1
          \<and> v_totalTests v = length testCases
          \<and> v_maxTime v = Num (Max (tr_executionTime ` case_result testCases executeFunction ` {0..<k}))
          \<and> v_maxMemory v = Num (Max (tr_memoryUsed ` case_result testCases executeFunction ` {0..<k})))"
proof -
  let ?R = "case_result testCases executeFunction"
  let ?rs = "evaluate_loop testCases executeFunction 0"
  have rs: "?rs = map ?R [0..<k]"
    using evaluate_loop_stops[of k testCases executeFunction 0] k pass fail
    by (simp add: case_result_def)
  obtain k' where k': "k = Suc k'" using k by (cases k) auto
  have split: "?rs = map ?R [0..<k'] @ [?R k']" using rs k' by simp
  have allp: "list_all tr_passed (map ?R [0..<k'])"
    using pass k' by (simp add: list_all_iff)
  have nf: "\<not> tr_passed (?R k')" using fail k' by simp
  have notall: "\<not> list_all tr_passed ?rs" using split nf by simp
  have ff: "find (\<lambda>r. \<not> tr_passed r) ?rs = Some (?R k')"
    unfolding split using allp nf by (rule find_first_failure)
  have cnt: "length (filter tr_passed ?rs) = k'"
    using allp nf unfolding split by (simp add: list_all_iff)
  have num: "tr_testCaseNumber (?R k') = k"
    by (simp add: case_result_def runTestCase_number k')
  have ne: "map tr_executionTime ?rs \<noteq> []" "map tr_memoryUsed ?rs \<noteq> []"
    using split by simp_all
  have st: "set (map tr_executionTime ?rs) = tr_executionTime ` ?R ` {0..<k}"
           "set (map tr_memoryUsed ?rs) = tr_memoryUsed ` ?R ` {0..<k}"
    unfolding rs by (simp_all add: image_image)
  have mt: "math_max (map tr_executionTime ?rs) = Num (Max (tr_executionTime ` ?R ` {0..<k}))"
    using math_max_Max[OF ne(1)] st(1) by simp
  have mm: "math_max (map tr_memoryUsed ?rs) = Num (Max (tr_memoryUsed ` ?R ` {0..<k}))"
    using math_max_Max[OF ne(2)] st(2) by simp
  have "evaluate code testCases executeFunction =
        Inr \<lparr>v_status = tr_verdict (?R k'), v_passedTests = k', v_totalTests = length testCases,
             v_maxTime = Num (Max (tr_executionTime ` ?R ` {0..<k})),
             v_maxMemory = Num (Max (tr_memoryUsed ` ?R ` {0..<k})),
             v_failedTestCase = Some k, v_errorMessage = tr_error (?R k')\<rparr>"
    unfolding evaluate_def generateVerdict_def using notall ff cnt num mt mm by simp
  then show ?thesis using rs k' by simp
qed

lemma threeCases_second_fails:
  "tr_passed (case_result threeCases echoRun 0)" "\<not> tr_passed (case_result threeCases echoRun 1)"
  by (simp_all add: case_result_def threeCases_def echoRun_def runTestCase_def or_zero_def
      or_empty_def compareOutput_def normalize_def judgeMode_def trim_def trimStart_def
      trimEnd_def is_space_def LF_def)

text \<open>
  C4 at three test cases of which the second fails: two results, \<open>failedTestCase = 2\<close>.
\<close>

theorem evaluate_stops_at_first_failure_witness:
  "length (evaluate_loop threeCases echoRun 0) = 2
   \<and> (\<exists>v. evaluate ''print(input())'' threeCases echoRun = Inr v
        \<and> v_failedTestCase v = Some 2 \<and> v_passedTests v = 1 \<and> v_totalTests v = 3
        \<and> v_status v = WrongAnswer)"
proof -
  have h1: "0 < (2::nat)" and h2: "2 \<le> length threeCases" by (simp_all add: threeCases_def)
  have h3: "\<forall>j < 2 - 1. tr_passed (case_result threeCases echoRun j)"
    using threeCases_second_fails(1) by simp
  have h4: "\<not> tr_passed (case_result threeCases echoRun (2 - 1))"
    using threeCases_second_fails(2) by simp
  have v: "tr_verdict (case_result threeCases echoRun 1) = WrongAnswer"
    by (simp add: case_result_def threeCases_def echoRun_def runTestCase_def or_zero_def
      or_empty_def compareOutput_def normalize_def judgeMode_def trim_def trimStart_def
      trimEnd_def is_space_def LF_def)
  show ?thesis
    using evaluate_stops_at_first_failure[OF h1 h2 h3 h4, of "''print(input())''"] v
    by (auto simp: threeCases_def)
qed

text \<open>
  C10. For the empty list of test cases \<open>evaluate\<close> returns the verdict \<open>Accepted\<close>
  with \<open>passedTests = 0\<close>, \<open>totalTests = 0\<close> and \<open>-Infinity\<close> as \<open>maxTime\<close> and
  \<open>maxMemory\<close>.
\<close>

theorem evaluate_empty_accepted:
  "evaluate code [] executeFunction =
     Inr \<lparr>v_status = Accepted, v_passedTests = 0, v_totalTests = 0,
          v_maxTime = NegInfinity, v_maxMemory = NegInfinity,
          v_failedTestCase = None, v_errorMessage = None\<rparr>"
  by (simp add: evaluate_def generateVerdict_def)

text \<open>
  C3, the third example as stated: \<open>compareOutput("5\n\n", "5")\<close> is said to be false
  in the mode of the judge. It is true: \<open>trim\<close> removes the two line feeds at the end
  before any line is looked at.
\<close>

theorem compareOutput_example_counterexample:
  "compareOutput (''5'' @ [LF, LF]) ''5''
     \<lparr>trimWhitespace = True, ignoreTrailingSpaces = True, ignoreEmptyLines = False\<rparr>"
  by (simp add: compareOutput_def normalize_def trim_def trimStart_def trimEnd_def is_space_def LF_def)

text \<open>
  C3, amended. In every mode that trims whitespace and ignores trailing spaces, two
  outputs that are equal after the normalization of the specification compare equal; in
  the mode of the judge \<open>compareOutput("5\n", "5")\<close>,
  \<open>compareOutput("5 \n6", "5\n6")\<close> and \<open>compareOutput("5\n\n", "5")\<close> are
  true, and \<open>compareOutput("5\n\n6", "5\n6")\<close>, with the empty line inside, is false.
\<close>

theorem compareOutput_normalized_equal:
  "(\<forall>actual expected mode.
       trimWhitespace mode \<and> ignoreTrailingSpaces mode
       \<and> spec_normalize actual = spec_normalize expected
       \<longrightarrow> compareOutput actual expected mode)
   \<and> compareOutput (''5'' @ [LF]) ''5'' judgeMode
   \<and> compareOutput (''5 '' @ [LF] @ ''6'') (''5'' @ [LF] @ ''6'') judgeMode
   \<and> compareOutput (''5'' @ [LF, LF]) ''5'' judgeMode
   \<and> \<not> compareOutput (''5'' @ [LF, LF] @ ''6'') (''5'' @ [LF] @ ''6'') judgeMode"
proof -
  have gen: "\<forall>actual expected mode.
       trimWhitespace mode \<and> ignoreTrailingSpaces mode
       \<and> spec_normalize actual = spec_normalize expected
       \<longrightarrow> compareOutput actual expected mode"
    by (auto simp: compareOutput_def normalize_via_spec)
  show ?thesis
    using gen compareOutput_trailing_newline compareOutput_trailing_space
      compareOutput_two_trailing_newlines compareOutput_inner_empty_line
    by blast
qed

text \<open>
  C3, amended, at the outputs \<open>" 5  \n6 \n"\<close> and \<open>"5\n6"\<close>.
\<close>

theorem compareOutput_normalized_equal_witness:
  "trimWhitespace judgeMode \<and> ignoreTrailingSpaces judgeMode
   \<and> spec_normalize ('' 5  '' @ [LF] @ ''6 '' @ [LF]) = spec_normalize (''5'' @ [LF] @ ''6'')
   \<and> compareOutput ('' 5  '' @ [LF] @ ''6 '' @ [LF]) (''5'' @ [LF] @ ''6'') judgeMode"
proof -
  have h: "trimWhitespace judgeMode \<and> ignoreTrailingSpaces judgeMode
   \<and> spec_normalize ('' 5  '' @ [LF] @ ''6 '' @ [LF]) = spec_normalize (''5'' @ [LF] @ ''6'')"
    by (simp add: judgeMode_def spec_normalize_def strip_trailing_spaces_def trim_def
        trimStart_def trimEnd_def is_space_def LF_def)
  from compareOutput_normalized_equal have
    "trimWhitespace judgeMode \<and> ignoreTrailingSpaces judgeMode
   \<and> spec_normalize ('' 5  '' @ [LF] @ ''6 '' @ [LF]) = spec_normalize (''5'' @ [LF] @ ''6'')
     \<longrightarrow> compareOutput ('' 5  '' @ [LF] @ ''6 '' @ [LF]) (''5'' @ [LF] @ ''6'') judgeMode"
    by blast
  with h show ?thesis by blast
qed

section \<open>The strategy router\<close>

text \<open>
  C5. For every analysis and every system load, the strategy that \<open>selectStrategy\<close>
  returns has the type given by the first matching rule of the five-rule priority list,
  and its rationale is not the empty string.
\<close>

theorem selectStrategy_priority_rules:
  "es_type (selectStrategy analysis systemLoad) = spec_strategy analysis systemLoad
   \<and> es_reason (selectStrategy analysis systemLoad) \<noteq> []"
  by (simp add: selectStrategy_def spec_strategy_def)

text \<open>
  The tests of \<open>analyzeCode\<close> against their meaning: a literal is found exactly when it
  occurs, and the import pattern exactly when \<open>import\<close> comes before
  \<open>child_process\<close> on one line.
\<close>

lemma starts_with_ci_iff:
  "starts_with_ci p s \<longleftrightarrow> (\<exists>w post. s = w @ post \<and> map ascii_upper w = map ascii_upper p)"
proof (induction p s rule: starts_with_ci.induct)
  case (1 s)
  then show ?case by simp
next
  case (2 p ps)
  then show ?case by simp
next
  case (3 p ps c cs)
  show ?case
  proof
    assume "starts_with_ci (p # ps) (c # cs)"
    then have h: "ascii_upper p = ascii_upper c" "starts_with_ci ps cs" by simp_all
    with 3 obtain w post where "cs = w @ post" "map ascii_upper w = map ascii_upper ps" by auto
    with h(1) have "c # cs = (c # w) @ post \<and> map ascii_upper (c # w) = map ascii_upper (p # ps)"
      by simp
    then show "\<exists>w post. c # cs = w @ post \<and> map ascii_upper w = map ascii_upper (p # ps)"
      by blast
  next
    assume "\<exists>w post. c # cs = w @ post \<and> map ascii_upper w = map ascii_upper (p # ps)"
    then obtain w post where w: "c # cs = w @ post" "map ascii_upper w = map ascii_upper (p # ps)"
      by blast
    then obtain w' where w': "w = c # w'" by (cases w) auto
    with w have "cs = w' @ post" "map ascii_upper w' = map ascii_upper ps" "ascii_upper c = ascii_upper p"
      by simp_all
    with 3 show "starts_with_ci (p # ps) (c # cs)" by auto
  qed
qed

lemma test_ci_iff: "test_ci p s \<longleftrightarrow> occurs_ci p s"
proof (induction s)
  case Nil
  then show ?case by (auto simp: occurs_ci_def starts_with_ci_iff)
next
  case (Cons c cs)
  show ?case
  proof
    assume "test_ci p (c # cs)"
    then consider "starts_with_ci p (c # cs)" | "test_ci p cs" by auto
    then show "occurs_ci p (c # cs)"
    proof cases
      case 1
      then obtain w post where "c # cs = [] @ w @ post" "map ascii_upper w = map ascii_upper p"
        by (auto simp: starts_with_ci_iff)
      then show ?thesis unfolding occurs_ci_def by blast
    next
      case 2
      with Cons obtain pre w post where "cs = pre @ w @ post" "map ascii_upper w = map ascii_upper p"
        by (auto simp: occurs_ci_def)
      then have "c # cs = (c # pre) @ w @ post \<and> map ascii_upper w = map ascii_upper p" by simp
      then show ?thesis unfolding occurs_ci_def by blast
    qed
  next
    assume "occurs_ci p (c # cs)"
    then obtain pre w post where h: "c # cs = pre @ w @ post" "map ascii_upper w = map ascii_upper p"
      by (auto simp: occurs_ci_def)
    show "test_ci p (c # cs)"
    proof (cases pre)
      case Nil
      with h have "starts_with_ci p (c # cs)" by (auto simp: starts_with_ci_iff)
      then show ?thesis by simp
    next
      case (Cons x pre')
      with h have "cs = pre' @ w @ post" by simp
      with h(2) have "occurs_ci p cs" unfolding occurs_ci_def by blast
      with Cons.IH show ?thesis by simp
    qed
  qed
qed

lemma dot_star_then_ci_iff:
  "dot_star_then_ci p s \<longleftrightarrow>
     (\<exists>mid b post. s = mid @ b @ post \<and> map ascii_upper b = map ascii_upper p
        \<and> (\<forall>c \<in> set mid. \<not> is_line_terminator c))"
proof (induction s)
  case Nil
  then show ?case by (auto simp: starts_with_ci_iff)
next
  case (Cons c cs)
  show ?case
  proof
    assume "dot_star_then_ci p (c # cs)"
    then consider "starts_with_ci p (c # cs)" | "\<not> is_line_terminator c" "dot_star_then_ci p cs"
      by auto
    then show "\<exists>mid b post. c # cs = mid @ b @ post \<and> map ascii_upper b = map ascii_upper p
        \<and> (\<forall>c \<in> set mid. \<not> is_line_terminator c)"
    proof cases
      case 1
      then obtain w post where "c # cs = [] @ w @ post" "map ascii_upper w = map ascii_upper p"
        by (auto simp: starts_with_ci_iff)
      then show ?thesis by (metis empty_iff empty_set)
    next
      case 2
      with Cons obtain mid b post where m: "cs = mid @ b @ post" "map ascii_upper b = map ascii_upper p"
        "\<forall>c \<in> set mid. \<not> is_line_terminator c" by auto
      with 2(1) have "c # cs = (c # mid) @ b @ post \<and> map ascii_upper b = map ascii_upper p
         \<and> (\<forall>x \<in> set (c # mid). \<not> is_line_terminator x)" by simp
      then show ?thesis by blast
    qed
  next
    assume "\<exists>mid b post. c # cs = mid @ b @ post \<and> map ascii_upper b = map ascii_upper p
        \<and> (\<forall>c \<in> set mid. \<not> is_line_terminator c)"
    then obtain mid b post where h: "c # cs = mid @ b @ post" "map ascii_upper b = map ascii_upper p"
        "\<forall>c \<in> set mid. \<not> is_line_terminator c" by blast
    show "dot_star_then_ci p (c # cs)"
    proof (cases mid)
      case Nil
      with h have "starts_with_ci p (c # cs)" by (auto simp: starts_with_ci_iff)
      then show ?thesis by simp
    next
      case (Cons x mid')
      with h have "cs = mid' @ b @ post" "\<not> is_line_terminator c" "\<forall>c \<in> set mid'. \<not> is_line_terminator c"
        by simp_all
      with h(2) Cons.IH have "dot_star_then_ci p cs" by blast
      with \<open>\<not> is_line_terminator c\<close> show ?thesis by simp
    qed
  qed
qed

lemma ci_length: "map ascii_upper a = map ascii_upper p \<Longrightarrow> length a = length p"
  by (metis length_map)

lemma test_import_child_process_iff:
  "test_import_child_process s \<longleftrightarrow> import_before_child_process s"
proof (induction s)
  case Nil
  then show ?case by (auto simp: import_before_child_process_def)
next
  case (Cons c cs)
  show ?case
  proof
    assume "test_import_child_process (c # cs)"
    then consider
      "starts_with_ci ''import'' (c # cs)" "dot_star_then_ci ''child_process'' (drop 6 (c # cs))"
      | "test_import_child_process cs" by auto
    then show "import_before_child_process (c # cs)"
    proof cases
      case 1
      from 1(1) obtain a rest where a: "c # cs = a @ rest" "map ascii_upper a = map ascii_upper ''import''"
        unfolding starts_with_ci_iff by blast
      have "length a = 6" using ci_length[OF a(2)] by simp
      with a(1) have "drop 6 (c # cs) = rest" by simp
      with 1(2) obtain mid b post where "rest = mid @ b @ post"
        "map ascii_upper b = map ascii_upper ''child_process''"
        "\<forall>c \<in> set mid. \<not> is_line_terminator c"
        unfolding dot_star_then_ci_iff by blast
      with a have "c # cs = [] @ a @ mid @ b @ post \<and> map ascii_upper a = map ascii_upper ''import''
        \<and> map ascii_upper b = map ascii_upper ''child_process''
        \<and> (\<forall>c \<in> set mid. \<not> is_line_terminator c)" by simp
      then show ?thesis unfolding import_before_child_process_def by blast
    next
      case 2
      with Cons obtain pre a mid b post where "cs = pre @ a @ mid @ b @ post"
        "map ascii_upper a = map ascii_upper ''import''"
        "map ascii_upper b = map ascii_upper ''child_process''"
        "\<forall>c \<in> set mid. \<not> is_line_terminator c"
        unfolding import_before_child_process_def by blast
      then have "c # cs = (c # pre) @ a @ mid @ b @ post \<and> map ascii_upper a = map ascii_upper ''import''
        \<and> map ascii_upper b = map ascii_upper ''child_process''
        \<and> (\<forall>c \<in> set mid. \<not> is_line_terminator c)" by simp
      then show ?thesis unfolding import_before_child_process_def by blast
    qed
  next
    assume "import_before_child_process (c # cs)"
    then obtain pre a mid b post where h: "c # cs = pre @ a @ mid @ b @ post"
        "map ascii_upper a = map ascii_upper ''import''"
        "map ascii_upper b = map ascii_upper ''child_process''"
        "\<forall>c \<in> set mid. \<not> is_line_terminator c"
      unfolding import_before_child_process_def by blast
    show "test_import_child_process (c # cs)"
    proof (cases pre)
      case Nil
      have la: "length a = 6" using ci_length[OF h(2)] by simp
      from Nil h have s: "c # cs = a @ (mid @ b @ post)" by simp
      then have sw: "starts_with_ci ''import'' (c # cs)" using h(2) unfolding starts_with_ci_iff by blast
      from s la have "drop 6 (c # cs) = mid @ b @ post" by simp
      then have "dot_star_then_ci ''child_process'' (drop 6 (c # cs))"
        using h(3,4) unfolding dot_star_then_ci_iff by blast
      with sw show ?thesis by simp
    next
      case (Cons x pre')
      with h have "cs = pre' @ a @ mid @ b @ post" by simp
      with h(2,3,4) have "import_before_child_process cs"
        unfolding import_before_child_process_def by blast
      with Cons.IH show ?thesis by simp
    qed
  qed
qed

text \<open>
  C8, amended. \<open>analyzeCode\<close> is defined for every string and every language (it has no
  throwing path) and does not parse: \<open>hasUnsafeOperations\<close> is true exactly when the
  code contains one of the unsafe literals, or \<open>import\<close> before \<open>child_process\<close> on one
  line, whatever the language.
\<close>

theorem analyzeCode_unsafe_is_pattern_match:
  "ca_hasUnsafeOperations (analyzeCode code language) \<longleftrightarrow>
     (\<exists>p \<in> set unsafe_literals. occurs_ci p code) \<or> import_before_child_process code"
  by (simp add: analyzeCode_def Let_def hasFileIO_def hasNetwork_def hasProcessSpawn_def
      hasNativeImports_def fileIO_literals_def network_literals_def processSpawn_literals_def
      nativeImport_literals_def unsafe_literals_def test_ci_iff test_import_child_process_iff)

text \<open>
  C8 at a C++ source that calls \<open>fopen\<close>, and at the lone parenthesis.
\<close>

theorem analyzeCode_unsafe_is_pattern_match_witness:
  "ca_hasUnsafeOperations (analyzeCode ''f = fopen(p);'' Cpp)
   \<and> ((\<exists>p \<in> set unsafe_literals. occurs_ci p ''f = fopen(p);'')
        \<or> import_before_child_process ''f = fopen(p);'')
   \<and> \<not> ((\<exists>p \<in> set unsafe_literals. occurs_ci p ''('')
        \<or> import_before_child_process ''('')"
proof -
  have u: "ca_hasUnsafeOperations (analyzeCode ''f = fopen(p);'' Cpp)" by code_simp
  have n: "\<not> ca_hasUnsafeOperations (analyzeCode ''('' Rust)" by code_simp
  show ?thesis
    using u n analyzeCode_unsafe_is_pattern_match[of "''f = fopen(p);''" Cpp]
      analyzeCode_unsafe_is_pattern_match[of "''(''" Rust]
    by blast
qed

text \<open>
  C8 as stated, at the code \<open>(\<close>: a lone opening parenthesis is not a program of
  JavaScript (nor of Python, C++ or Rust), and its analysis has
  \<open>hasUnsafeOperations = false\<close>.
\<close>

theorem analyzeCode_unparseable_counterexample:
  "\<not> ca_hasUnsafeOperations (analyzeCode ''('' JavaScript)"
  by code_simp

section \<open>Time limits\<close>

text \<open>
  The two places that look at the time. In the orchestrator the timer of
  \<open>collectOutput\<close> rejects with the message \<open>Time Limit Exceeded\<close>, and the
  \<open>catch\<close> of \<open>executeInContainer\<close> turns every rejection into a result whose
  verdict is \<open>Runtime Error\<close>: no result of \<open>executeInContainer\<close> carries the verdict
  \<open>Time Limit Exceeded\<close>. In the judge a successful result whose time is over the
  limit of the test case gets \<open>Time Limit Exceeded\<close>.
\<close>

lemma executeInContainer_never_TLE:
  "er_verdict (executeInContainer env code input limits run) \<noteq> Some TimeLimitExceeded"
  by (auto simp: executeInContainer_def split: container_run.splits prod.splits sum.splits)

lemma runTestCase_over_limit:
  "er_success r \<Longrightarrow> er_executionTime r = Some t \<Longrightarrow> tc_timeLimit tc < t \<Longrightarrow> 0 \<le> tc_timeLimit tc \<Longrightarrow>
   tr_verdict (runTestCase tc (Resolves r) n) = TimeLimitExceeded
   \<and> \<not> tr_passed (runTestCase tc (Resolves r) n)"
  by (simp add: runTestCase_def or_zero_def)

text \<open>
  C1 at a run that is still going when the timer of 5000 ms fires (its stream would end
  after 6000 ms): \<open>executeInContainer\<close> returns a failure with the error text
  \<open>Time Limit Exceeded\<close> and the verdict \<open>Runtime Error\<close>, the test case gets
  \<open>Runtime Error\<close>, and so do the verdict of \<open>evaluate\<close> and the submission that
  \<open>processSubmission\<close> completes; the claim says \<open>Time Limit Exceeded\<close>.
\<close>

theorem timeout_path_runtime_error:
  "executeInContainer env1 ''while True: pass'' ''5'' submissionLimits slowRun
     = \<lparr>er_success = False, er_output = None, er_error = Some ''Time Limit Exceeded'',
        er_verdict = Some RuntimeError, er_executionTime = Some 5020,
        er_memoryUsed = None, er_exitCode = None\<rparr>
   \<and> tr_verdict (runTestCase (hd processTestCases)
         (submissionExecute (\<lambda>i. slowRun) env1 ''while True: pass'' 0 ''5'') 1) = RuntimeError
   \<and> (\<exists>v. evaluate ''while True: pass'' processTestCases
              (submissionExecute (\<lambda>i. slowRun) env1 ''while True: pass'') = Inr v
          \<and> v_status v = RuntimeError \<and> v_failedTestCase v = Some 1
          \<and> v_errorMessage v = Some ''Time Limit Exceeded'')
   \<and> sub_status (fst (snd (processSubmission slowAnswers queuedWorld queuedSubmission)))
       = Completed
   \<and> map_option v_status
         (sub_verdict (fst (snd (processSubmission slowAnswers queuedWorld queuedSubmission))))
       = Some RuntimeError"
proof -
  have q: "sub_code queuedSubmission = ''print(int(input())*2)''"
    "sub_language queuedSubmission = Python"
    by (simp_all add: queuedSubmission_def queuedWorld_def submit_def enqueue_def submitOk_def
      demoRequest_def emptyWorld_def Let_def trim_def trimStart_def trimEnd_def is_space_def)
  have e: "executeInContainer env code input submissionLimits slowRun
     = \<lparr>er_success = False, er_output = None, er_error = Some ''Time Limit Exceeded'',
        er_verdict = Some RuntimeError, er_executionTime = Some 5020,
        er_memoryUsed = None, er_exitCode = None\<rparr>" for env code input
    by (simp add: executeInContainer_def collectOutput_def timer_delay_def timer_wins_def
        submissionLimits_def slowRun_def error_message_def)
  have v: "evaluate code processTestCases (submissionExecute (\<lambda>i. slowRun) env code)
     = Inr \<lparr>v_status = RuntimeError, v_passedTests = 0, v_totalTests = 1,
            v_maxTime = Num 5020, v_maxMemory = Num 0, v_failedTestCase = Some 1,
            v_errorMessage = Some ''Time Limit Exceeded''\<rparr>" for env code
    by (simp add: e runTestCase_def submissionExecute_def processTestCases_def evaluate_def
        generateVerdict_def or_zero_def)
  have t: "tr_verdict (runTestCase (hd processTestCases)
         (submissionExecute (\<lambda>i. slowRun) env1 ''while True: pass'' 0 ''5'') 1) = RuntimeError"
    by (simp add: e runTestCase_def submissionExecute_def processTestCases_def)
  have p: "sub_status (fst (snd (processSubmission slowAnswers queuedWorld queuedSubmission)))
       = Completed
   \<and> map_option v_status
         (sub_verdict (fst (snd (processSubmission slowAnswers queuedWorld queuedSubmission))))
       = Some RuntimeError"
    by (simp add: processSubmission_def process_try_def slowAnswers_def createOk_def
        destroyOk_def createExecutionEnvironment_def Let_def v q)
  show ?thesis using e[of env1 "''while True: pass''" "''5''"] t v p by simp
qed

section \<open>Intake\<close>

lemma all_space_trim:
  assumes "\<forall>c \<in> set s. is_space c"
  shows "trim s = []"
proof -
  have d: "dropWhile is_space s = []" using assms by simp
  show ?thesis unfolding trim_def trimStart_def trimEnd_def d by simp
qed

text \<open>
  C6. When every character of the code is whitespace (the empty code included),
  \<open>submit\<close> throws \<open>Code cannot be empty\<close> and the route answers 400, both before
  anything else happens: the state is unchanged (no call to the repository, nothing on
  the queue) and no submission identifier is returned.
\<close>

theorem submit_rejects_blank_code:
  assumes "\<forall>c \<in> set (rq_code request). is_space c"
  shows "submit a w request = (Inl (Error ''Code cannot be empty''), w)
     \<and> post_api_submit a w request = (Status400 ''Code cannot be empty'', w)
     \<and> repo_calls (snd (submit a w request)) = repo_calls w
     \<and> queue (snd (submit a w request)) = queue w
     \<and> repo_calls (snd (post_api_submit a w request)) = repo_calls w
     \<and> queue (snd (post_api_submit a w request)) = queue w
     \<and> (\<nexists>submissionId. fst (submit a w request) = Inr submissionId)
     \<and> (\<nexists>submissionId. fst (post_api_submit a w request) = Json200 submissionId)"
  using all_space_trim[OF assms] by (simp add: submit_def post_api_submit_def)

text \<open>
  C6 at the code of a space, a line feed, a tab and a space, on the empty backend.
\<close>

theorem submit_rejects_blank_code_witness:
  "list_all is_space (rq_code blankRequest)
   \<and> submit submitOk emptyWorld blankRequest = (Inl (Error ''Code cannot be empty''), emptyWorld)
   \<and> post_api_submit submitOk emptyWorld blankRequest
       = (Status400 ''Code cannot be empty'', emptyWorld)"
proof -
  have h: "\<forall>c \<in> set (rq_code blankRequest). is_space c"
    by (simp add: blankRequest_def is_space_def)
  show ?thesis
    using h submit_rejects_blank_code[OF h, of submitOk emptyWorld] by (simp add: list_all_iff)
qed

section \<open>Custom tests\<close>

text \<open>
  Creating and destroying an environment leave the repository and the queue alone. The
  environment leaves the pool when \<open>stop\<close> and \<open>remove\<close> both succeed and stays in it
  otherwise.
\<close>

lemma createExecutionEnvironment_frame:
  "createExecutionEnvironment a w language = (r, w') \<Longrightarrow>
   repo_calls w' = repo_calls w \<and> queue w' = queue w"
  by (auto simp: createExecutionEnvironment_def Let_def split: option.splits)

lemma createExecutionEnvironment_env:
  "createExecutionEnvironment a w language = (Inr env, w') \<Longrightarrow>
   env_id env = ce_uuid a \<and> workerPool w' (env_id env) = Some env"
  by (auto simp: createExecutionEnvironment_def Let_def split: option.splits)

lemma destroyEnvironment_frame:
  "repo_calls (destroyEnvironment a w env) = repo_calls w
   \<and> queue (destroyEnvironment a w env) = queue w"
  by (simp add: destroyEnvironment_def Let_def split: option.splits)

lemma destroyEnvironment_failure:
  "de_stop a \<noteq> None \<or> de_remove a \<noteq> None \<Longrightarrow>
   workerPool (destroyEnvironment a w env) = workerPool w"
  by (auto simp: destroyEnvironment_def Let_def split: option.splits)

text \<open>
  What holds of every custom test: it makes no call to the repository and puts nothing
  on the queue, and when its environment has been created its result is that of
  \<open>executeInContainer\<close> under the limits of regular submissions.
\<close>

lemma runCustomTest_persists_nothing:
  assumes "runCustomTest a w code input language = (res, w')"
  shows "repo_calls w' = repo_calls w \<and> queue w' = queue w
     \<and> (\<forall>env w1. createExecutionEnvironment (ct_create a) w language = (Inr env, w1) \<longrightarrow>
           res = Inr (executeInContainer env code input submissionLimits (ct_run a)))"
proof -
  obtain r w1 where cr: "createExecutionEnvironment (ct_create a) w language = (r, w1)"
    by (cases "createExecutionEnvironment (ct_create a) w language") blast
  note fr = createExecutionEnvironment_frame[OF cr]
  show ?thesis
  proof (cases r)
    case (Inl e)
    have "w' = w1" using assms cr Inl by (simp add: runCustomTest_def)
    then show ?thesis using cr Inl fr by simp
  next
    case (Inr env)
    have res: "res = Inr (executeInContainer env code input customTestLimits (ct_run a))"
      and w': "w' = destroyEnvironment (ct_destroy a) w1 env"
      using assms cr Inr by (simp_all add: runCustomTest_def Let_def)
    have lim: "customTestLimits = submissionLimits"
      by (simp add: customTestLimits_def submissionLimits_def)
    have p1: "repo_calls w' = repo_calls w \<and> queue w' = queue w"
      unfolding w' using destroyEnvironment_frame[of "ct_destroy a" w1 env] fr by simp
    show ?thesis unfolding cr Inr using p1 res lim by simp
  qed
qed

text \<open>
  Whatever Docker answers, a custom test never asks Docker to stop or to remove the
  container that it has had created, unless Docker happens to have named that container
  by the UUID of the environment: \<open>stop\<close> and \<open>remove\<close> are sent to the UUID.
\<close>

lemma runCustomTest_never_stops_created_container:
  assumes "ce_container (ct_create a) \<noteq> ce_uuid (ct_create a)"
  shows "\<exists>calls. docker_calls (snd (runCustomTest a w code input language))
                   = docker_calls w @ calls
     \<and> StopContainer (ce_container (ct_create a)) \<notin> set calls
     \<and> RemoveContainer (ce_container (ct_create a)) \<notin> set calls"
  using assms
  by (simp add: runCustomTest_def createExecutionEnvironment_def destroyEnvironment_def Let_def
      split: option.splits)

text \<open>
  Whenever \<open>stop\<close> or \<open>remove\<close> throws, the environment of a custom test is still in
  the worker pool after the call.
\<close>

lemma runCustomTest_keeps_environment:
  assumes cr: "createExecutionEnvironment (ct_create a) w language = (Inr env, w1)"
    and fails: "de_stop (ct_destroy a) \<noteq> None \<or> de_remove (ct_destroy a) \<noteq> None"
  shows "workerPool (snd (runCustomTest a w code input language)) (env_id env) = Some env"
proof -
  have "snd (runCustomTest a w code input language) = destroyEnvironment (ct_destroy a) w1 env"
    using cr by (simp add: runCustomTest_def Let_def)
  then show ?thesis
    using destroyEnvironment_failure[OF fails, of w1 env] createExecutionEnvironment_env[OF cr]
    by metis
qed

text \<open>
  C9 at a custom test on the empty backend: Docker names the container it creates
  \<open>4c01db0b339c\<close>, the environment gets the UUID \<open>env-1\<close>, and Docker refuses the
  \<open>stop\<close> of \<open>env-1\<close>, which names no container. The call returns its result; Docker
  has been asked to create and start \<open>4c01db0b339c\<close> and to stop \<open>env-1\<close>, and
  nothing else, so the created container is neither stopped nor removed; and the
  environment is still in the worker pool. The claim says that the environment created
  for the run is destroyed when the call completes.
\<close>

theorem runCustomTest_leaves_environment:
  "(\<exists>result. fst (runCustomTest customTestStopFails emptyWorld ''print(int(input())*2)'' ''5''
                     Python) = Inr result)
   \<and> docker_calls (snd (runCustomTest customTestStopFails emptyWorld ''print(int(input())*2)''
                          ''5'' Python))
       = [CreateContainer Python ''4c01db0b339c'', StartContainer ''4c01db0b339c'',
          StopContainer ''env-1'']
   \<and> workerPool (snd (runCustomTest customTestStopFails emptyWorld ''print(int(input())*2)''
                         ''5'' Python)) ''env-1''
       = Some env1"
  by (simp add: runCustomTest_def customTestStopFails_def createOk_def stopFails_def
      emptyWorld_def createExecutionEnvironment_def destroyEnvironment_def env1_def Let_def)

section \<open>Status and verdict of a submission\<close>

text \<open>
  \<open>evaluate\<close> never throws, so the \<open>try\<close> of \<open>processSubmission\<close> can only throw at
  the update that follows the assignment of the verdict: the \<open>catch\<close> is reached with
  the verdict set. \<open>processSubmission\<close> therefore ends in one of three ways: it throws
  before the \<open>try\<close>, with the status \<open>Running\<close> and the verdict it came with; it
  returns, with the status \<open>Completed\<close> and a verdict; or it throws from the \<open>catch\<close>,
  with the status \<open>Failed\<close> and a verdict.
\<close>

lemma process_try_result:
  "\<exists>v. evaluate (sub_code s) processTestCases
           (submissionExecute (pa_runs a) env (sub_code s)) = Inr v
       \<and> process_try a w s env =
           (pa_update_completed a,
            s\<lparr>sub_verdict := Some v, sub_status := Completed,
              sub_completedAt := Some (pa_completedAt a)\<rparr>,
            w\<lparr>repo_calls := repo_calls w @
                 [RepoUpdate (s\<lparr>sub_verdict := Some v, sub_status := Completed,
                                 sub_completedAt := Some (pa_completedAt a)\<rparr>)]\<rparr>)"
proof -
  obtain v where v: "evaluate (sub_code s) processTestCases
           (submissionExecute (pa_runs a) env (sub_code s)) = Inr v"
    using evaluate_never_throws by blast
  then show ?thesis by (auto simp: process_try_def Let_def split: option.splits)
qed

lemma process_catch_result:
  "\<exists>e'. process_catch a w s e =
     (Some e', s\<lparr>sub_status := Failed, sub_completedAt := Some (pa_failedAt a)\<rparr>,
      w\<lparr>repo_calls := repo_calls w @
           [RepoUpdate (s\<lparr>sub_status := Failed, sub_completedAt := Some (pa_failedAt a)\<rparr>)]\<rparr>)"
  by (simp add: process_catch_def Let_def split: option.splits)

lemma processSubmission_cases:
  assumes ps: "processSubmission a w s = (thrown, s', w')"
  defines "s1 \<equiv> s\<lparr>sub_status := Running, sub_startedAt := Some (pa_startedAt a)\<rparr>"
  shows "(thrown \<noteq> None \<and> s' = s1 \<and> persisted_since w w' = [s1])
       \<or> (\<exists>v s2. s2 = s1\<lparr>sub_verdict := Some v, sub_status := Completed,
                          sub_completedAt := Some (pa_completedAt a)\<rparr>
            \<and> thrown = None \<and> s' = s2 \<and> persisted_since w w' = [s1, s2])
       \<or> (\<exists>v s2 s3. s2 = s1\<lparr>sub_verdict := Some v, sub_status := Completed,
                          sub_completedAt := Some (pa_completedAt a)\<rparr>
            \<and> s3 = s2\<lparr>sub_status := Failed, sub_completedAt := Some (pa_failedAt a)\<rparr>
            \<and> thrown \<noteq> None \<and> s' = s3 \<and> persisted_since w w' = [s1, s2, s3])"
proof (cases "pa_update_running a")
  case (Some e)
  with ps show ?thesis
    by (auto simp: processSubmission_def Let_def s1_def persisted_since_def call_submission_def)
next
  case None
  let ?w1 = "w\<lparr>repo_calls := repo_calls w @ [RepoUpdate s1]\<rparr>"
  obtain r w2 where cr: "createExecutionEnvironment (pa_create a) ?w1 (sub_language s1) = (r, w2)"
    by (cases "createExecutionEnvironment (pa_create a) ?w1 (sub_language s1)") blast
  have fr: "repo_calls w2 = repo_calls w @ [RepoUpdate s1]"
    using createExecutionEnvironment_frame[OF cr] by simp
  show ?thesis
  proof (cases r)
    case (Inl e)
    have "thrown = Some e" "s' = s1" "w' = w2"
      using ps None cr Inl by (simp_all add: processSubmission_def Let_def s1_def)
    then show ?thesis using fr by (simp add: persisted_since_def call_submission_def)
  next
    case (Inr env)
    obtain v where tr: "process_try a w2 s1 env =
           (pa_update_completed a,
            s1\<lparr>sub_verdict := Some v, sub_status := Completed,
              sub_completedAt := Some (pa_completedAt a)\<rparr>,
            w2\<lparr>repo_calls := repo_calls w2 @
                 [RepoUpdate (s1\<lparr>sub_verdict := Some v, sub_status := Completed,
                                 sub_completedAt := Some (pa_completedAt a)\<rparr>)]\<rparr>)"
      using process_try_result[of s1 a env w2] by blast
    define s2 where "s2 = s1\<lparr>sub_verdict := Some v, sub_status := Completed,
              sub_completedAt := Some (pa_completedAt a)\<rparr>"
    define w3 where "w3 = w2\<lparr>repo_calls := repo_calls w2 @ [RepoUpdate s2]\<rparr>"
    have tr': "process_try a w2 s1 env = (pa_update_completed a, s2, w3)"
      using tr by (simp add: s2_def w3_def)
    show ?thesis
    proof (cases "pa_update_completed a")
      case None2: None
      have "thrown = None" "s' = s2" "w' = destroyEnvironment (pa_destroy a) w3 env"
        using ps None cr Inr tr' None2
        by (simp_all add: processSubmission_def Let_def s1_def[symmetric])
      moreover have "repo_calls (destroyEnvironment (pa_destroy a) w3 env)
                       = repo_calls w @ [RepoUpdate s1, RepoUpdate s2]"
        using destroyEnvironment_frame[of "pa_destroy a" w3 env] fr by (simp add: w3_def)
      ultimately have "thrown = None \<and> s' = s2 \<and> persisted_since w w' = [s1, s2]"
        by (simp add: persisted_since_def call_submission_def)
      then show ?thesis using s2_def by blast
    next
      case (Some e)
      define s3 where "s3 = s2\<lparr>sub_status := Failed, sub_completedAt := Some (pa_failedAt a)\<rparr>"
      define w4 where "w4 = w3\<lparr>repo_calls := repo_calls w3 @ [RepoUpdate s3]\<rparr>"
      obtain e' where ca: "process_catch a w3 s2 e = (Some e', s3, w4)"
        using process_catch_result[of a w3 s2 e] by (auto simp: s3_def w4_def)
      have "thrown = Some e'" "s' = s3" "w' = destroyEnvironment (pa_destroy a) w4 env"
        using ps None cr Inr tr' Some ca
        by (simp_all add: processSubmission_def Let_def s1_def[symmetric])
      moreover have "repo_calls (destroyEnvironment (pa_destroy a) w4 env)
                       = repo_calls w @ [RepoUpdate s1, RepoUpdate s2, RepoUpdate s3]"
        using destroyEnvironment_frame[of "pa_destroy a" w4 env] fr by (simp add: w3_def w4_def)
      ultimately have "thrown \<noteq> None \<and> s' = s3 \<and> persisted_since w w' = [s1, s2, s3]"
        by (simp add: persisted_since_def call_submission_def)
      then show ?thesis using s2_def s3_def by blast
    qed
  qed
qed

lemma submit_writes:
  assumes "submit a w request = (res, w')"
  shows "\<forall>s \<in> set (persisted_since w w' @ enqueued_since w w').
           sub_status s = Queued \<and> sub_verdict s = None"
  using assms
  by (auto simp: submit_def enqueue_def Let_def persisted_since_def enqueued_since_def
      call_submission_def split: if_splits option.splits)

lemma queuedWorld_eval:
  "queue queuedWorld = [queuedSubmission] \<and> sub_status queuedSubmission = Queued
   \<and> sub_verdict queuedSubmission = None \<and> sub_code queuedSubmission = ''print(int(input())*2)''
   \<and> sub_language queuedSubmission = Python"
  by (simp add: queuedSubmission_def queuedWorld_def submit_def enqueue_def submitOk_def
      demoRequest_def emptyWorld_def Let_def trim_def trimStart_def trimEnd_def is_space_def)

text \<open>
  C2 as stated, at a submission that \<open>submit\<close> has created and
  \<open>processSubmission\<close> has completed, and that is processed once more while Docker
  fails to create a container: it is \<open>Completed\<close> with a verdict before the call,
  and after the call it is \<open>Running\<close> and still has the verdict. The invariant held
  before this status transition and does not hold after it.
\<close>

theorem processSubmission_again_counterexample:
  "sub_status completedSubmission = Completed
   \<and> verdict_consistent completedSubmission
   \<and> sub_status (fst (snd (processSubmission createFails completedWorld completedSubmission)))
       = Running
   \<and> sub_verdict (fst (snd (processSubmission createFails completedWorld completedSubmission)))
       = sub_verdict completedSubmission
   \<and> \<not> verdict_consistent
         (fst (snd (processSubmission createFails completedWorld completedSubmission)))"
proof -
  obtain v where v: "evaluate (sub_code queuedSubmission) processTestCases
       (submissionExecute (pa_runs okAnswers) env1 (sub_code queuedSubmission)) = Inr v"
    using evaluate_never_throws by blast
  have c: "completedSubmission =
       queuedSubmission\<lparr>sub_status := Completed, sub_startedAt := Some 1000,
                        sub_verdict := Some v, sub_completedAt := Some 1100\<rparr>"
    using v queuedWorld_eval
    by (simp add: completedSubmission_def processSubmission_def process_try_def okAnswers_def
        createOk_def destroyOk_def createExecutionEnvironment_def env1_def Let_def)
  have r: "fst (snd (processSubmission createFails completedWorld completedSubmission))
       = completedSubmission\<lparr>sub_status := Running, sub_startedAt := Some 2000\<rparr>"
    by (simp add: processSubmission_def createFails_def createOk_def
        createExecutionEnvironment_def Let_def)
  show ?thesis unfolding r by (simp add: c verdict_consistent_def)
qed

text \<open>
  C2, amended. Every submission that \<open>submit\<close> hands to the repository or the queue
  has a verdict exactly when its status is \<open>Completed\<close> or \<open>Failed\<close>. When
  \<open>processSubmission\<close> returns, the status is \<open>Completed\<close>; whenever it leaves the
  submission \<open>Completed\<close> or \<open>Failed\<close> (its success path and its failure path), the
  submission satisfies the invariant, whatever submission came in. When it leaves the
  submission neither \<open>Completed\<close> nor \<open>Failed\<close>, it has thrown before the \<open>try\<close>:
  the status is \<open>Running\<close> and the verdict is the one that came in. When the
  submission satisfies the invariant on entry and is not yet \<open>Completed\<close> or
  \<open>Failed\<close>, it satisfies the invariant when the call completes, however it
  completes, and so does every snapshot handed to the repository on the way.
\<close>

theorem verdict_presence_consistent:
  assumes "submit sa w0 request = (sres, w1)"
    and "processSubmission pa w submission = (thrown, s', w')"
  shows "(\<forall>s \<in> set (persisted_since w0 w1 @ enqueued_since w0 w1). verdict_consistent s)
     \<and> (thrown = None \<longrightarrow> sub_status s' = Completed)
     \<and> (sub_status s' = Completed \<or> sub_status s' = Failed \<longrightarrow> verdict_consistent s')
     \<and> (sub_status s' \<noteq> Completed \<and> sub_status s' \<noteq> Failed \<longrightarrow>
          thrown \<noteq> None \<and> sub_status s' = Running
          \<and> sub_verdict s' = sub_verdict submission)
     \<and> (verdict_consistent submission
         \<and> sub_status submission \<noteq> Completed \<and> sub_status submission \<noteq> Failed \<longrightarrow>
          verdict_consistent s' \<and> (\<forall>s \<in> set (persisted_since w w'). verdict_consistent s))"
proof -
  have a: "\<forall>s \<in> set (persisted_since w0 w1 @ enqueued_since w0 w1). verdict_consistent s"
    using submit_writes[OF assms(1)] by (simp add: verdict_consistent_def)
  note c = processSubmission_cases[OF assms(2)]
  have b: "thrown = None \<longrightarrow> sub_status s' = Completed"
    using c by auto
  have d: "sub_status s' = Completed \<or> sub_status s' = Failed \<longrightarrow> verdict_consistent s'"
    using c by (auto simp: verdict_consistent_def)
  have e: "verdict_consistent submission
         \<and> sub_status submission \<noteq> Completed \<and> sub_status submission \<noteq> Failed \<longrightarrow>
          verdict_consistent s' \<and> (\<forall>s \<in> set (persisted_since w w'). verdict_consistent s)"
    using c by (auto simp: verdict_consistent_def)
  have f: "sub_status s' \<noteq> Completed \<and> sub_status s' \<noteq> Failed \<longrightarrow>
          thrown \<noteq> None \<and> sub_status s' = Running
          \<and> sub_verdict s' = sub_verdict submission"
    using c by auto
  from a b d e f show ?thesis by blast
qed

lemma updateFails_status:
  "sub_status (fst (snd (processSubmission updateFails queuedWorld queuedSubmission))) = Failed"
proof -
  obtain v where "evaluate (sub_code queuedSubmission) processTestCases
       (submissionExecute (pa_runs updateFails) env1 (sub_code queuedSubmission)) = Inr v"
    using evaluate_never_throws by blast
  then show ?thesis
    using queuedWorld_eval
    by (simp add: processSubmission_def process_try_def process_catch_def updateFails_def
        createOk_def destroyOk_def createExecutionEnvironment_def env1_def Let_def)
qed

text \<open>
  C2 at the submission of a one-line program, processed by a backend whose database
  fails at the update that records \<open>Completed\<close>: the failure path.
\<close>

theorem verdict_presence_consistent_witness:
  "sub_status queuedSubmission = Queued
   \<and> verdict_consistent queuedSubmission
   \<and> list_all verdict_consistent
       (persisted_since emptyWorld queuedWorld @ enqueued_since emptyWorld queuedWorld)
   \<and> sub_status (fst (snd (processSubmission updateFails queuedWorld queuedSubmission))) = Failed
   \<and> verdict_consistent (fst (snd (processSubmission updateFails queuedWorld queuedSubmission)))
   \<and> list_all verdict_consistent
       (persisted_since queuedWorld
          (snd (snd (processSubmission updateFails queuedWorld queuedSubmission))))"
proof -
  have s: "submit submitOk emptyWorld demoRequest
             = (fst (submit submitOk emptyWorld demoRequest), queuedWorld)"
    by (simp add: queuedWorld_def)
  have p: "processSubmission updateFails queuedWorld queuedSubmission
             = (fst (processSubmission updateFails queuedWorld queuedSubmission),
                fst (snd (processSubmission updateFails queuedWorld queuedSubmission)),
                snd (snd (processSubmission updateFails queuedWorld queuedSubmission)))"
    by simp
  have h: "sub_status queuedSubmission = Queued" "verdict_consistent queuedSubmission"
    using queuedWorld_eval by (simp_all add: verdict_consistent_def)
  note t = verdict_presence_consistent[OF s p]
  have c1: "\<forall>s \<in> set (persisted_since emptyWorld queuedWorld @ enqueued_since emptyWorld queuedWorld).
              verdict_consistent s"
    using t by blast
  have c2: "verdict_consistent (fst (snd (processSubmission updateFails queuedWorld queuedSubmission)))
     \<and> (\<forall>s \<in> set (persisted_since queuedWorld
          (snd (snd (processSubmission updateFails queuedWorld queuedSubmission)))).
           verdict_consistent s)"
    using t h by simp
  show ?thesis using h c1 c2 updateFails_status by (simp add: list_all_iff)
qed

end
